theory Spec2Isabelle
  imports Main
begin

section \<open>Data model\<close>

text \<open>
  The two agent tools of \<^verbatim>\<open>agent/tools/google_docs_read.py\<close> and
  \<^verbatim>\<open>agent/tools/google_docs_write.py\<close>. Everything beyond the two classes (the
  JSON library, the Google client library, the clock, the logger and the cancellation
  flag of the surrounding canvas) is an environment the model takes as data.

  Inputs are strings, as the tools' schemas declare them. The \<^verbatim>\<open>@timeout\<close>
  decorator around \<^verbatim>\<open>_invoke\<close> is a wall-clock deadline of the caller and is
  not part of the model: the model describes an invocation that is left to run.
\<close>

subsection \<open>JSON values\<close>

text \<open>
  What \<^verbatim>\<open>json.loads\<close> returns: \<^verbatim>\<open>None\<close>, a bool, a number, a \<^verbatim>\<open>str\<close>,
  a \<^verbatim>\<open>list\<close> or a \<^verbatim>\<open>dict\<close>. Numbers are kept abstract as integers; no function
  of the tools looks inside a value.
\<close>

datatype jvalue =
    JNull
  | JBool bool
  | JNum int
  | JStr string
  | JArr "jvalue list"
  | JObj "(string \<times> jvalue) list"

text \<open>\<^verbatim>\<open>isinstance(operations, list)\<close>\<close>

fun isinstance_list :: "jvalue \<Rightarrow> bool" where
  "isinstance_list (JArr xs) = True"
| "isinstance_list v = False"

subsection \<open>Parameters, outputs, results\<close>

text \<open>
  The fields of \<^verbatim>\<open>self._param\<close> the tools read. \<^verbatim>\<open>max_retries\<close> is a Python
  \<^verbatim>\<open>int\<close>; \<^verbatim>\<open>delay_after_error\<close> is a non-negative duration (section 3 of the
  specification), handed to \<^verbatim>\<open>time.sleep\<close> as it is.
\<close>

record param =
  service_account_json :: string
  max_retries :: int
  delay_after_error :: nat

text \<open>The component's output fields, written by \<^verbatim>\<open>set_output\<close>.\<close>

datatype outval = OBool bool | OStr string

type_synonym outputs = "string \<rightharpoonup> outval"

text \<open>
  How \<^verbatim>\<open>_invoke\<close> ends: \<^verbatim>\<open>return\<close> with no value, \<^verbatim>\<open>return\<close> of a
  \<^verbatim>\<open>str\<close>, the \<^verbatim>\<open>AssertionError\<close> of \<^verbatim>\<open>assert False, self.output()\<close>,
  which carries the outputs, or an exception that no handler of \<^verbatim>\<open>_invoke\<close>
  catches and that leaves it (\<open>Raises\<close> of its \<^verbatim>\<open>str\<close>).
\<close>

datatype result = NoResult | Text string | AssertionFailure outputs | Raises string

subsection \<open>The environment\<close>

text \<open>
  A client as \<^verbatim>\<open>_get_docs_service\<close> builds it: the scopes it was given and the
  credential blob it was made from.
\<close>

datatype client = Client (scopes: "string list") (credentials: string)

text \<open>
  What one pass through the \<^verbatim>\<open>try\<close> block meets. Building the client raises an
  exception \<open>e\<close> with \<^verbatim>\<open>str(e)\<close> the given string, or the client is built and
  the call's \<^verbatim>\<open>execute()\<close> raises or returns the response body.
\<close>

datatype call_outcome = CallFails string | Returns jvalue

datatype outcome = BuildFails string | Built call_outcome

fun err_of :: "outcome \<Rightarrow> string option" where
  "err_of (BuildFails e) = Some e"
| "err_of (Built (CallFails e)) = Some e"
| "err_of (Built (Returns d)) = None"

text \<open>
  What \<^verbatim>\<open>json.loads\<close> does on a string: it returns the value, it raises
  \<^verbatim>\<open>json.JSONDecodeError\<close>, or it raises another exception
  (\<^verbatim>\<open>RecursionError\<close> on input nested too deeply, a plain \<^verbatim>\<open>ValueError\<close>
  on an integer literal with too many digits). The strings are the \<^verbatim>\<open>str\<close> of the
  exceptions.
\<close>

datatype loads_outcome = Loaded jvalue | JSONDecodeError string | OtherException string

text \<open>
  The world around one invocation: \<open>canceled w i\<close> is what poll number \<open>i\<close> of the
  cancellation flag sees, \<open>remote w i\<close> is what attempt number \<open>i\<close> meets (both count
  from 0). \<^verbatim>\<open>json.dumps(_, indent=2)\<close> is total on values.
\<close>

record world =
  canceled :: "nat \<Rightarrow> bool"
  remote :: "nat \<Rightarrow> outcome"
  json_loads :: "string \<Rightarrow> loads_outcome"
  json_dumps :: "jvalue \<Rightarrow> string"

text \<open>What an invocation does to the outside, in order.\<close>

datatype event =
    Build "string list" string
  | Get client string
  | BatchUpdate client string jvalue
  | Log string
  | Sleep nat

text \<open>
  The state one invocation threads: the number of cancellation polls and of attempts
  so far, the events so far, and the output fields.
\<close>

record state =
  polls :: nat
  attempts :: nat
  trace :: "event list"
  outputs :: outputs

definition init_state :: state where
  "init_state = \<lparr>polls = 0, attempts = 0, trace = [], outputs = Map.empty\<rparr>"

section \<open>Library functions\<close>

text \<open>
  \<^verbatim>\<open>str.isspace\<close> on one character, for the code points below 256:
  tab to carriage return, the four separators, the space, NEL and the no-break space.
\<close>

definition isspace :: "char \<Rightarrow> bool" where
  "isspace c = (c \<in> set [CHR 0x09, CHR 0x0A, CHR 0x0B, CHR 0x0C, CHR 0x0D,
                           CHR 0x1C, CHR 0x1D, CHR 0x1E, CHR 0x1F, CHR 0x20,
                           CHR 0x85, CHR 0xA0])"

text \<open>\<^verbatim>\<open>str.strip()\<close>: leading and trailing whitespace removed.\<close>

definition strip :: "string \<Rightarrow> string" where
  "strip s = rev (dropWhile isspace (rev (dropWhile isspace s)))"

text \<open>\<^verbatim>\<open>kwargs.get(key, default)\<close>\<close>

definition kwargs_get :: "(string \<rightharpoonup> string) \<Rightarrow> string \<Rightarrow> string \<Rightarrow> string" where
  "kwargs_get kwargs k d = (case kwargs k of None \<Rightarrow> d | Some v \<Rightarrow> v)"

text \<open>\<^verbatim>\<open>self.set_output(key, value)\<close>\<close>

definition set_output :: "string \<Rightarrow> outval \<Rightarrow> state \<Rightarrow> state" where
  "set_output k v s = s\<lparr>outputs := (outputs s)(k \<mapsto> v)\<rparr>"

text \<open>\<^verbatim>\<open>logging.exception(msg)\<close> and \<^verbatim>\<open>time.sleep(d)\<close>\<close>

definition logging_exception :: "string \<Rightarrow> state \<Rightarrow> state" where
  "logging_exception msg s = s\<lparr>trace := trace s @ [Log msg]\<rparr>"

definition time_sleep :: "nat \<Rightarrow> state \<Rightarrow> state" where
  "time_sleep d s = s\<lparr>trace := trace s @ [Sleep d]\<rparr>"

text \<open>
  Modelled from the spec: \<^verbatim>\<open>check_if_canceled\<close> is a method of the base class
  \<^verbatim>\<open>ToolBase\<close>, which is not among the sources. Section 4.2 of the specification:
  a cancellation flag that is polled, not interrupt-driven; the poll reports the flag
  and emits no structured result.
\<close>

definition check_if_canceled :: "world \<Rightarrow> state \<Rightarrow> bool \<times> state" where
  "check_if_canceled w s = (canceled w (polls s), s\<lparr>polls := Suc (polls s)\<rparr>)"

text \<open>\<^verbatim>\<open>range(n)\<close> has \<open>n\<close> elements, none when \<open>n\<close> is negative.\<close>

definition range_len :: "int \<Rightarrow> nat" where
  "range_len n = nat n"

section \<open>The read tool\<close>

definition GoogleDocsRead_SCOPES :: "string list" where
  "GoogleDocsRead_SCOPES =
     [''https://www.googleapis.com/auth/documents.readonly'',
      ''https://www.googleapis.com/auth/drive.readonly'']"

text \<open>
  \<^verbatim>\<open>GoogleDocsRead._get_docs_service\<close>: the credential blob is parsed, scoped
  credentials are made from it and the client is built; any of the three may raise.
\<close>

definition GoogleDocsRead_get_docs_service ::
  "param \<Rightarrow> outcome \<Rightarrow> state \<Rightarrow> (string + client \<times> call_outcome) \<times> state" where
  "GoogleDocsRead_get_docs_service p oc s =
     (let s1 = s\<lparr>trace := trace s @ [Build GoogleDocsRead_SCOPES (service_account_json p)]\<rparr>
      in case oc of
           BuildFails e \<Rightarrow> (Inl e, s1)
         | Built c \<Rightarrow> (Inr (Client GoogleDocsRead_SCOPES (service_account_json p), c), s1))"

text \<open>
  The body of the \<^verbatim>\<open>try\<close> block: \<open>Inl\<close> of \<^verbatim>\<open>str(e)\<close> when an exception is
  raised, \<open>Inr\<close> of the returned text otherwise.
\<close>

definition GoogleDocsRead_try ::
  "world \<Rightarrow> param \<Rightarrow> string \<Rightarrow> state \<Rightarrow> (string + string) \<times> state" where
  "GoogleDocsRead_try w p document_id s =
     (case GoogleDocsRead_get_docs_service p (remote w (attempts s))
             (s\<lparr>attempts := Suc (attempts s)\<rparr>) of
        (Inl e, s1) \<Rightarrow> (Inl e, s1)
      | (Inr (service, c), s1) \<Rightarrow>
          (let s2 = s1\<lparr>trace := trace s1 @ [Get service document_id]\<rparr>
           in case c of
                CallFails e \<Rightarrow> (Inl e, s2)
              | Returns document \<Rightarrow> (Inr (json_dumps w document), s2)))"

text \<open>
  The \<^verbatim>\<open>for\<close> loop with \<open>n\<close> iterations left. \<open>Some r\<close> is a \<^verbatim>\<open>return\<close>
  from inside the loop, \<open>None\<close> is the loop running out; the string is \<^verbatim>\<open>last_e\<close>.
\<close>

fun GoogleDocsRead_loop ::
  "world \<Rightarrow> param \<Rightarrow> string \<Rightarrow> nat \<Rightarrow> string \<Rightarrow> state \<Rightarrow> result option \<times> string \<times> state" where
  "GoogleDocsRead_loop w p document_id 0 last_e s = (None, last_e, s)"
| "GoogleDocsRead_loop w p document_id (Suc n) last_e s =
     (let (c, s1) = check_if_canceled w s in
      if c then (Some NoResult, last_e, s1)
      else
        (case GoogleDocsRead_try w p document_id s1 of
           (Inr text, s2) \<Rightarrow> (Some (Text text), last_e, s2)
         | (Inl e, s2) \<Rightarrow>
             (let (c', s3) = check_if_canceled w s2 in
              if c' then (Some NoResult, last_e, s3)
              else GoogleDocsRead_loop w p document_id n e
                     (time_sleep (delay_after_error p)
                        (logging_exception (''GoogleDocsRead error: '' @ e) s3)))))"

text \<open>\<^verbatim>\<open>GoogleDocsRead._invoke\<close>\<close>

definition GoogleDocsRead_invoke ::
  "world \<Rightarrow> param \<Rightarrow> (string \<rightharpoonup> string) \<Rightarrow> result \<times> state" where
  "GoogleDocsRead_invoke w p kwargs =
     (let (c, s) = check_if_canceled w init_state in
      if c then (NoResult, s)
      else
        (let document_id = strip (kwargs_get kwargs ''document_id'' '''') in
         if document_id = [] then
           (Text ''Error: document_id is required'',
            set_output ''success'' (OBool False)
              (set_output ''_ERROR'' (OStr ''document_id is required'') s))
         else
           (case GoogleDocsRead_loop w p document_id
                   (range_len (max_retries p + 1)) '''' s of
              (Some r, last_e, s') \<Rightarrow> (r, s')
            | (None, last_e, s') \<Rightarrow>
                if last_e \<noteq> [] then
                  (Text (''GoogleDocsRead error: '' @ last_e),
                   set_output ''success'' (OBool False)
                     (set_output ''_ERROR'' (OStr last_e) s'))
                else (AssertionFailure (outputs s'), s'))))"

section \<open>The write tool\<close>

definition GoogleDocsWrite_SCOPES :: "string list" where
  "GoogleDocsWrite_SCOPES =
     [''https://www.googleapis.com/auth/documents'',
      ''https://www.googleapis.com/auth/drive'']"

text \<open>\<^verbatim>\<open>GoogleDocsWrite._get_docs_service\<close>\<close>

definition GoogleDocsWrite_get_docs_service ::
  "param \<Rightarrow> outcome \<Rightarrow> state \<Rightarrow> (string + client \<times> call_outcome) \<times> state" where
  "GoogleDocsWrite_get_docs_service p oc s =
     (let s1 = s\<lparr>trace := trace s @ [Build GoogleDocsWrite_SCOPES (service_account_json p)]\<rparr>
      in case oc of
           BuildFails e \<Rightarrow> (Inl e, s1)
         | Built c \<Rightarrow> (Inr (Client GoogleDocsWrite_SCOPES (service_account_json p), c), s1))"

text \<open>
  The body of the \<^verbatim>\<open>try\<close> block. \<^verbatim>\<open>success\<close> is set before the response is
  serialized.
\<close>

definition GoogleDocsWrite_try ::
  "world \<Rightarrow> param \<Rightarrow> string \<Rightarrow> jvalue \<Rightarrow> state \<Rightarrow> (string + string) \<times> state" where
  "GoogleDocsWrite_try w p document_id operations s =
     (case GoogleDocsWrite_get_docs_service p (remote w (attempts s))
             (s\<lparr>attempts := Suc (attempts s)\<rparr>) of
        (Inl e, s1) \<Rightarrow> (Inl e, s1)
      | (Inr (service, c), s1) \<Rightarrow>
          (let s2 = s1\<lparr>trace := trace s1 @ [BatchUpdate service document_id operations]\<rparr>
           in case c of
                CallFails e \<Rightarrow> (Inl e, s2)
              | Returns res \<Rightarrow>
                  (Inr (json_dumps w res), set_output ''success'' (OBool True) s2)))"

fun GoogleDocsWrite_loop ::
  "world \<Rightarrow> param \<Rightarrow> string \<Rightarrow> jvalue \<Rightarrow> nat \<Rightarrow> string \<Rightarrow> state
     \<Rightarrow> result option \<times> string \<times> state" where
  "GoogleDocsWrite_loop w p document_id operations 0 last_e s = (None, last_e, s)"
| "GoogleDocsWrite_loop w p document_id operations (Suc n) last_e s =
     (let (c, s1) = check_if_canceled w s in
      if c then (Some NoResult, last_e, s1)
      else
        (case GoogleDocsWrite_try w p document_id operations s1 of
           (Inr text, s2) \<Rightarrow> (Some (Text text), last_e, s2)
         | (Inl e, s2) \<Rightarrow>
             (let (c', s3) = check_if_canceled w s2 in
              if c' then (Some NoResult, last_e, s3)
              else GoogleDocsWrite_loop w p document_id operations n e
                     (time_sleep (delay_after_error p)
                        (logging_exception (''GoogleDocsWrite error: '' @ e) s3)))))"

text \<open>
  \<^verbatim>\<open>GoogleDocsWrite._invoke\<close>. The \<^verbatim>\<open>try\<close> around \<^verbatim>\<open>json.loads\<close>
  catches \<^verbatim>\<open>json.JSONDecodeError\<close> only: any other exception of the parser
  leaves \<^verbatim>\<open>_invoke\<close> with nothing set.
\<close>

definition GoogleDocsWrite_invoke ::
  "world \<Rightarrow> param \<Rightarrow> (string \<rightharpoonup> string) \<Rightarrow> result \<times> state" where
  "GoogleDocsWrite_invoke w p kwargs =
     (let (c, s) = check_if_canceled w init_state in
      if c then (NoResult, s)
      else
        (let document_id = strip (kwargs_get kwargs ''document_id'' '''');
             operations_str = strip (kwargs_get kwargs ''operations'' '''')
         in
         if document_id = [] then
           (Text ''Error: document_id is required'',
            set_output ''success'' (OBool False)
              (set_output ''_ERROR'' (OStr ''document_id is required'') s))
         else if operations_str = [] then
           (Text ''Error: operations is required'',
            set_output ''success'' (OBool False)
              (set_output ''_ERROR'' (OStr ''operations is required'') s))
         else
           (case json_loads w operations_str of
              JSONDecodeError e \<Rightarrow>
                (Text (''Error: Invalid JSON in operations: '' @ e),
                 set_output ''success'' (OBool False)
                   (set_output ''_ERROR'' (OStr (''Invalid JSON in operations: '' @ e)) s))
            | OtherException e \<Rightarrow> (Raises e, s)
            | Loaded operations \<Rightarrow>
                if \<not> isinstance_list operations then
                  (Text ''Error: operations must be a JSON array'',
                   set_output ''success'' (OBool False)
                     (set_output ''_ERROR'' (OStr ''operations must be a JSON array'') s))
                else
                  (case GoogleDocsWrite_loop w p document_id operations
                          (range_len (max_retries p + 1)) '''' s of
                     (Some r, last_e, s') \<Rightarrow> (r, s')
                   | (None, last_e, s') \<Rightarrow>
                       if last_e \<noteq> [] then
                         (Text (''GoogleDocsWrite error: '' @ last_e),
                          set_output ''success'' (OBool False)
                            (set_output ''_ERROR'' (OStr last_e) s'))
                       else (AssertionFailure (outputs s'), s')))))"

section \<open>Observations on a trace\<close>

fun is_Build :: "event \<Rightarrow> bool" where
  "is_Build (Build sc b) = True"
| "is_Build ev = False"

fun is_call :: "event \<Rightarrow> bool" where
  "is_call (Get c d) = True"
| "is_call (BatchUpdate c d ops) = True"
| "is_call ev = False"

fun is_Sleep :: "event \<Rightarrow> bool" where
  "is_Sleep (Sleep d) = True"
| "is_Sleep ev = False"

fun is_Log :: "event \<Rightarrow> bool" where
  "is_Log (Log m) = True"
| "is_Log ev = False"

section \<open>Vocabulary of the properties\<close>

subsection \<open>Inputs\<close>

text \<open>
  An input that is missing, empty or whitespace-only. \<open>strip_get_blank\<close> below shows
  that this is what the tools' test \<^verbatim>\<open>not kwargs.get(key, "").strip()\<close> decides.
\<close>

fun blank :: "string option \<Rightarrow> bool" where
  "blank None = True"
| "blank (Some v) = list_all isspace v"

text \<open>The inputs pass the validation of the read tool, of the write tool.\<close>

definition read_inputs_ok :: "(string \<rightharpoonup> string) \<Rightarrow> bool" where
  "read_inputs_ok kwargs = (\<not> blank (kwargs ''document_id''))"

definition write_inputs_ok :: "world \<Rightarrow> (string \<rightharpoonup> string) \<Rightarrow> bool" where
  "write_inputs_ok w kwargs =
     (\<not> blank (kwargs ''document_id'') \<and> \<not> blank (kwargs ''operations'') \<and>
      (case json_loads w (strip (kwargs_get kwargs ''operations'' '''')) of
         Loaded v \<Rightarrow> isinstance_list v
       | JSONDecodeError e \<Rightarrow> False
       | OtherException e \<Rightarrow> False))"

text \<open>
  The parser rejects the \<^verbatim>\<open>operations\<close> input with a
  \<^verbatim>\<open>JSONDecodeError\<close>, or parses it to something that is not a list.
\<close>

definition operations_rejected :: "world \<Rightarrow> (string \<rightharpoonup> string) \<Rightarrow> bool" where
  "operations_rejected w kwargs =
     (case json_loads w (strip (kwargs_get kwargs ''operations'' '''')) of
        Loaded v \<Rightarrow> \<not> isinstance_list v
      | JSONDecodeError e \<Rightarrow> True
      | OtherException e \<Rightarrow> False)"

text \<open>The local variables \<^verbatim>\<open>document_id\<close> and \<^verbatim>\<open>operations\<close> of a valid call.\<close>

definition document_id_of :: "(string \<rightharpoonup> string) \<Rightarrow> string" where
  "document_id_of kwargs = strip (kwargs_get kwargs ''document_id'' '''')"

definition operations_of :: "world \<Rightarrow> (string \<rightharpoonup> string) \<Rightarrow> jvalue" where
  "operations_of w kwargs =
     (case json_loads w (strip (kwargs_get kwargs ''operations'' '''')) of
        Loaded v \<Rightarrow> v
      | JSONDecodeError e \<Rightarrow> JNull
      | OtherException e \<Rightarrow> JNull)"

subsection \<open>Outputs and traces\<close>

text \<open>The output fields of a reported error.\<close>

definition error_outputs :: "string \<Rightarrow> outputs" where
  "error_outputs msg = [''_ERROR'' \<mapsto> OStr msg, ''success'' \<mapsto> OBool False]"

text \<open>\<^verbatim>\<open>str(e)\<close> of the exception an attempt raises (empty when it raises none).\<close>

definition err_msg :: "outcome \<Rightarrow> string" where
  "err_msg oc = (case err_of oc of Some e \<Rightarrow> e | None \<Rightarrow> [])"

text \<open>
  \<^verbatim>\<open>last_e\<close> after \<open>n\<close> failed attempts, the first of them attempt number \<open>a\<close>.
\<close>

definition last_error :: "world \<Rightarrow> nat \<Rightarrow> nat \<Rightarrow> string \<Rightarrow> string" where
  "last_error w a n last_e = (if n = 0 then last_e else err_msg (remote w (a + n - 1)))"

text \<open>
  The events of one pass through the \<^verbatim>\<open>try\<close> block, and of \<open>n\<close> failed passes
  in a row, each followed by its log line and its sleep.
\<close>

definition read_attempt_events :: "param \<Rightarrow> string \<Rightarrow> outcome \<Rightarrow> event list" where
  "read_attempt_events p document_id oc =
     Build GoogleDocsRead_SCOPES (service_account_json p) #
     (case oc of
        BuildFails e \<Rightarrow> []
      | Built c \<Rightarrow> [Get (Client GoogleDocsRead_SCOPES (service_account_json p)) document_id])"

fun read_failed_trace :: "world \<Rightarrow> param \<Rightarrow> string \<Rightarrow> nat \<Rightarrow> nat \<Rightarrow> event list" where
  "read_failed_trace w p document_id a 0 = []"
| "read_failed_trace w p document_id a (Suc n) =
     read_attempt_events p document_id (remote w a) @
     [Log (''GoogleDocsRead error: '' @ err_msg (remote w a)), Sleep (delay_after_error p)] @
     read_failed_trace w p document_id (Suc a) n"

definition read_after_failures :: "world \<Rightarrow> param \<Rightarrow> string \<Rightarrow> nat \<Rightarrow> state \<Rightarrow> state" where
  "read_after_failures w p document_id k s =
     s\<lparr>polls := polls s + 2 * k, attempts := attempts s + k,
       trace := trace s @ read_failed_trace w p document_id (attempts s) k\<rparr>"

definition write_attempt_events :: "param \<Rightarrow> string \<Rightarrow> jvalue \<Rightarrow> outcome \<Rightarrow> event list" where
  "write_attempt_events p document_id operations oc =
     Build GoogleDocsWrite_SCOPES (service_account_json p) #
     (case oc of
        BuildFails e \<Rightarrow> []
      | Built c \<Rightarrow> [BatchUpdate (Client GoogleDocsWrite_SCOPES (service_account_json p)) document_id operations])"

fun write_failed_trace :: "world \<Rightarrow> param \<Rightarrow> string \<Rightarrow> jvalue \<Rightarrow> nat \<Rightarrow> nat \<Rightarrow> event list" where
  "write_failed_trace w p document_id operations a 0 = []"
| "write_failed_trace w p document_id operations a (Suc n) =
     write_attempt_events p document_id operations (remote w a) @
     [Log (''GoogleDocsWrite error: '' @ err_msg (remote w a)), Sleep (delay_after_error p)] @
     write_failed_trace w p document_id operations (Suc a) n"

definition write_after_failures :: "world \<Rightarrow> param \<Rightarrow> string \<Rightarrow> jvalue \<Rightarrow> nat \<Rightarrow> state \<Rightarrow> state" where
  "write_after_failures w p document_id operations k s =
     s\<lparr>polls := polls s + 2 * k, attempts := attempts s + k,
       trace := trace s @ write_failed_trace w p document_id operations (attempts s) k\<rparr>"

text \<open>
  What a trace shows: the passes through the \<^verbatim>\<open>try\<close> block (one client
  construction each), the remote calls made, the delays slept and the lines logged.
\<close>

definition n_attempts :: "event list \<Rightarrow> nat" where
  "n_attempts t = length (filter is_Build t)"

definition n_calls :: "event list \<Rightarrow> nat" where
  "n_calls t = length (filter is_call t)"

fun delays :: "event list \<Rightarrow> nat list" where
  "delays [] = []"
| "delays (Sleep d # t) = d # delays t"
| "delays (ev # t) = delays t"

fun logged :: "event list \<Rightarrow> string list" where
  "logged [] = []"
| "logged (Log m # t) = m # logged t"
| "logged (ev # t) = logged t"

text \<open>Among the attempts \<open>a, \<dots>, a + n - 1\<close>, those whose client was built.\<close>

fun n_built :: "world \<Rightarrow> nat \<Rightarrow> nat \<Rightarrow> nat" where
  "n_built w a 0 = 0"
| "n_built w a (Suc n) =
     (case remote w a of BuildFails e \<Rightarrow> 0 | Built c \<Rightarrow> 1) + n_built w (Suc a) n"

fun client_of :: "event \<Rightarrow> client option" where
  "client_of (Get c d) = Some c"
| "client_of (BatchUpdate c d ops) = Some c"
| "client_of ev = None"

text \<open>
  Every construction in the trace is with the scopes \<open>sc\<close> from the blob \<open>b\<close>, and
  every remote call comes directly after a construction and uses the client of that
  construction. \<open>prev\<close> is the event before the trace.
\<close>

fun fresh_clients :: "string list \<Rightarrow> string \<Rightarrow> event option \<Rightarrow> event list \<Rightarrow> bool" where
  "fresh_clients sc b prev [] = True"
| "fresh_clients sc b prev (ev # t) =
     ((if is_Build ev then ev = Build sc b else True) \<and>
      (if is_call ev then prev = Some (Build sc b) \<and> client_of ev = Some (Client sc b)
       else True) \<and>
      fresh_clients sc b (Some ev) t)"

text \<open>
  The invariant of an invocation behind \<open>fresh_clients\<close>: the whole trace is fresh,
  there is one construction per pass through the \<^verbatim>\<open>try\<close> block, and never more
  calls than passes.
\<close>

definition clients_fresh :: "string list \<Rightarrow> param \<Rightarrow> state \<Rightarrow> bool" where
  "clients_fresh sc p s =
     (fresh_clients sc (service_account_json p) None (trace s) \<and>
      n_attempts (trace s) = attempts s \<and> n_calls (trace s) \<le> attempts s)"

section \<open>Sample inputs\<close>

text \<open>An input nested too deeply for the parser: one hundred thousand open brackets.\<close>

definition deep_operations :: string where
  "deep_operations = replicate 100000 (CHR ''['')"

text \<open>
  A small JSON library for the examples: it parses the two texts the examples use,
  runs out of stack on \<open>deep_operations\<close> and rejects every other.
\<close>

definition sample_loads :: "string \<Rightarrow> loads_outcome" where
  "sample_loads s =
     (if s = ''[]'' then Loaded (JArr [])
      else if s = ''{}'' then Loaded (JObj [])
      else if s = deep_operations then
        OtherException
          ''maximum recursion depth exceeded while decoding a JSON array from a unicode string''
      else JSONDecodeError ''Expecting value: line 1 column 1 (char 0)'')"

definition sample_dumps :: "jvalue \<Rightarrow> string" where
  "sample_dumps v = (if v = JObj [] then ''{}'' else ''null'')"

definition sample_world :: "(nat \<Rightarrow> bool) \<Rightarrow> (nat \<Rightarrow> outcome) \<Rightarrow> world" where
  "sample_world c r =
     \<lparr>canceled = c, remote = r, json_loads = sample_loads, json_dumps = sample_dumps\<rparr>"

text \<open>Never canceled, every call rejected with the same message.\<close>

definition quota_world :: world where
  "quota_world = sample_world (\<lambda>i. False) (\<lambda>i. Built (CallFails ''quota exceeded''))"

text \<open>Never canceled, every call raising an exception whose text is empty.\<close>

definition silent_world :: world where
  "silent_world = sample_world (\<lambda>i. False) (\<lambda>i. Built (CallFails ''''))"

text \<open>Never canceled, every call answered.\<close>

definition ok_world :: world where
  "ok_world = sample_world (\<lambda>i. False) (\<lambda>i. Built (Returns (JObj [])))"

text \<open>Never canceled, the first call rejected and the second answered.\<close>

definition flaky_world :: world where
  "flaky_world =
     sample_world (\<lambda>i. False)
       (\<lambda>i. if i = 0 then Built (CallFails ''backend error'') else Built (Returns (JObj [])))"

text \<open>Canceled from the start.\<close>

definition canceled_world :: world where
  "canceled_world = sample_world (\<lambda>i. True) (\<lambda>i. Built (Returns (JObj [])))"

text \<open>Canceled at poll number \<open>n\<close> only, every call rejected.\<close>

definition late_cancel_world :: "nat \<Rightarrow> world" where
  "late_cancel_world n = sample_world (\<lambda>i. i = n) (\<lambda>i. Built (CallFails ''quota exceeded''))"

definition param0 :: param where
  "param0 = \<lparr>service_account_json = ''{}'', max_retries = 2, delay_after_error = 2\<rparr>"

definition param1 :: param where
  "param1 = \<lparr>service_account_json = ''{}'', max_retries = 7, delay_after_error = 0\<rparr>"

definition read_kwargs :: "string \<rightharpoonup> string" where
  "read_kwargs = [''document_id'' \<mapsto> ''doc-1'']"

definition write_kwargs :: "string \<rightharpoonup> string" where
  "write_kwargs = [''document_id'' \<mapsto> ''doc-1'', ''operations'' \<mapsto> '' [] '']"

definition not_json_kwargs :: "string \<rightharpoonup> string" where
  "not_json_kwargs = [''document_id'' \<mapsto> ''doc-1'', ''operations'' \<mapsto> ''not json'']"

definition deep_kwargs :: "string \<rightharpoonup> string" where
  "deep_kwargs = [''document_id'' \<mapsto> ''doc-1'', ''operations'' \<mapsto> deep_operations]"

definition object_kwargs :: "string \<rightharpoonup> string" where
  "object_kwargs = [''document_id'' \<mapsto> ''doc-1'', ''operations'' \<mapsto> ''{}'']"

definition blank_kwargs :: "string \<rightharpoonup> string" where
  "blank_kwargs = [''document_id'' \<mapsto> ''  '', ''operations'' \<mapsto> ''[]'']"

text \<open>The state in which the two tools end on \<open>silent_world\<close> with \<open>param0\<close>.\<close>

definition silent_read_final :: state where
  "silent_read_final =
     \<lparr>polls = 7, attempts = 3,
      trace = [Build GoogleDocsRead_SCOPES ''{}'',
               Get (Client GoogleDocsRead_SCOPES ''{}'') ''doc-1'',
               Log ''GoogleDocsRead error: '', Sleep 2,
               Build GoogleDocsRead_SCOPES ''{}'',
               Get (Client GoogleDocsRead_SCOPES ''{}'') ''doc-1'',
               Log ''GoogleDocsRead error: '', Sleep 2,
               Build GoogleDocsRead_SCOPES ''{}'',
               Get (Client GoogleDocsRead_SCOPES ''{}'') ''doc-1'',
               Log ''GoogleDocsRead error: '', Sleep 2],
      outputs = Map.empty\<rparr>"

definition silent_write_final :: state where
  "silent_write_final =
     \<lparr>polls = 7, attempts = 3,
      trace = [Build GoogleDocsWrite_SCOPES ''{}'',
               BatchUpdate (Client GoogleDocsWrite_SCOPES ''{}'') ''doc-1'' (JArr []),
               Log ''GoogleDocsWrite error: '', Sleep 2,
               Build GoogleDocsWrite_SCOPES ''{}'',
               BatchUpdate (Client GoogleDocsWrite_SCOPES ''{}'') ''doc-1'' (JArr []),
               Log ''GoogleDocsWrite error: '', Sleep 2,
               Build GoogleDocsWrite_SCOPES ''{}'',
               BatchUpdate (Client GoogleDocsWrite_SCOPES ''{}'') ''doc-1'' (JArr []),
               Log ''GoogleDocsWrite error: '', Sleep 2],
      outputs = Map.empty\<rparr>"

section \<open>Lemmas\<close>

lemma strip_Nil_iff: "strip s = [] \<longleftrightarrow> list_all isspace s"
proof
  assume a: "strip s = []"
  show "list_all isspace s"
  proof (rule ccontr)
    assume "\<not> list_all isspace s"
    then have ne: "dropWhile isspace s \<noteq> []" by (simp add: list_all_iff)
    then have "\<not> isspace (hd (dropWhile isspace s))" by (rule hd_dropWhile)
    moreover have "hd (dropWhile isspace s) \<in> set (dropWhile isspace s)" using ne by simp
    ultimately have "\<not> list_all isspace (rev (dropWhile isspace s))"
      by (auto simp: list_all_iff)
    then show False using a by (simp add: strip_def list_all_iff)
  qed
next
  assume "list_all isspace s"
  then show "strip s = []"
    by (auto simp: strip_def list_all_iff dest: set_dropWhileD)
qed

lemma strip_get_blank: "strip (kwargs_get kwargs k '''') = [] \<longleftrightarrow> blank (kwargs k)"
  by (cases "kwargs k") (simp_all add: kwargs_get_def strip_Nil_iff)

lemma last_error_Suc:
  assumes "err_of (remote w a) = Some e"
  shows "last_error w (Suc a) k e = last_error w a (Suc k) last_e"
  using assms by (cases k) (simp_all add: last_error_def err_msg_def)

lemma read_try_fails:
  assumes "err_of (remote w (attempts s)) = Some e"
  shows "GoogleDocsRead_try w p document_id s =
           (Inl e, s\<lparr>attempts := Suc (attempts s),
                     trace := trace s @ read_attempt_events p document_id (remote w (attempts s))\<rparr>)"
  using assms
  by (cases "remote w (attempts s)" rule: err_of.cases)
     (simp_all add: GoogleDocsRead_try_def GoogleDocsRead_get_docs_service_def
        read_attempt_events_def)

lemma read_try_returns:
  assumes "remote w (attempts s) = Built (Returns d)"
  shows "GoogleDocsRead_try w p document_id s =
           (Inr (json_dumps w d),
            s\<lparr>attempts := Suc (attempts s),
              trace := trace s @ read_attempt_events p document_id (remote w (attempts s))\<rparr>)"
  using assms
  by (simp add: GoogleDocsRead_try_def GoogleDocsRead_get_docs_service_def
        read_attempt_events_def)

lemma read_loop_canceled_top:
  assumes "canceled w (polls s)"
  shows "GoogleDocsRead_loop w p document_id (Suc n) last_e s =
           (Some NoResult, last_e, s\<lparr>polls := Suc (polls s)\<rparr>)"
  using assms by (simp add: check_if_canceled_def)

lemma read_loop_returns_step:
  assumes "\<not> canceled w (polls s)" and "remote w (attempts s) = Built (Returns d)"
  shows "GoogleDocsRead_loop w p document_id (Suc n) last_e s =
           (Some (Text (json_dumps w d)), last_e,
            s\<lparr>polls := Suc (polls s), attempts := Suc (attempts s),
              trace := trace s @ read_attempt_events p document_id (Built (Returns d))\<rparr>)"
  using assms
  by (cases s) (simp add: check_if_canceled_def read_try_returns)

lemma read_loop_canceled_handler:
  assumes "\<not> canceled w (polls s)" and "err_of (remote w (attempts s)) = Some e"
    and "canceled w (Suc (polls s))"
  shows "GoogleDocsRead_loop w p document_id (Suc n) last_e s =
           (Some NoResult, last_e,
            s\<lparr>polls := polls s + 2, attempts := Suc (attempts s),
              trace := trace s @ read_attempt_events p document_id (remote w (attempts s))\<rparr>)"
  using assms
  by (cases s) (simp add: check_if_canceled_def read_try_fails)

lemma read_loop_failed_step:
  assumes "\<not> canceled w (polls s)" and "\<not> canceled w (Suc (polls s))"
    and "err_of (remote w (attempts s)) = Some e"
  shows "GoogleDocsRead_loop w p document_id (Suc n) last_e s =
         GoogleDocsRead_loop w p document_id n e (read_after_failures w p document_id 1 s)"
  using assms
  by (cases s)
     (simp add: check_if_canceled_def read_try_fails time_sleep_def logging_exception_def
        err_msg_def read_after_failures_def)

lemma read_after_failures_Suc:
  "read_after_failures w p document_id k (read_after_failures w p document_id 1 s) =
   read_after_failures w p document_id (Suc k) s"
  by (cases s) (simp add: read_after_failures_def)

lemma read_loop_failures:
  assumes "\<forall>i<2 * k. \<not> canceled w (polls s + i)"
    and "\<forall>i<k. err_of (remote w (attempts s + i)) \<noteq> None"
  shows "GoogleDocsRead_loop w p document_id (k + n) last_e s =
         GoogleDocsRead_loop w p document_id n (last_error w (attempts s) k last_e)
           (read_after_failures w p document_id k s)"
  using assms
proof (induction k arbitrary: s last_e)
  case 0
  show ?case by (cases s) (simp add: last_error_def read_after_failures_def)
next
  case (Suc k)
  from Suc.prems(2) obtain e where e: "err_of (remote w (attempts s)) = Some e"
    by force
  let ?s = "read_after_failures w p document_id 1 s"
  have c0: "\<not> canceled w (polls s)" and c1: "\<not> canceled w (Suc (polls s))"
    using Suc.prems(1)[rule_format, of 0] Suc.prems(1)[rule_format, of 1] by simp_all
  have step: "GoogleDocsRead_loop w p document_id (Suc k + n) last_e s =
              GoogleDocsRead_loop w p document_id (k + n) e ?s"
    using read_loop_failed_step[OF c0 c1 e] by simp
  have c: "\<forall>i<2 * k. \<not> canceled w (polls ?s + i)"
  proof (intro allI impI)
    fix i assume "i < 2 * k"
    then have "i + 2 < 2 * Suc k" by simp
    from Suc.prems(1)[rule_format, OF this] show "\<not> canceled w (polls ?s + i)"
      by (simp add: read_after_failures_def add.commute)
  qed
  have f: "\<forall>i<k. err_of (remote w (attempts ?s + i)) \<noteq> None"
  proof (intro allI impI)
    fix i assume "i < k"
    then have "Suc i < Suc k" by simp
    from Suc.prems(2)[rule_format, OF this] show "err_of (remote w (attempts ?s + i)) \<noteq> None"
      by (simp add: read_after_failures_def)
  qed
  have a: "attempts ?s = Suc (attempts s)"
    by (simp add: read_after_failures_def)
  show ?case
    unfolding step Suc.IH[OF c f] a last_error_Suc[OF e, of k last_e] read_after_failures_Suc ..
qed

lemma write_try_fails:
  assumes "err_of (remote w (attempts s)) = Some e"
  shows "GoogleDocsWrite_try w p document_id operations s =
           (Inl e, s\<lparr>attempts := Suc (attempts s),
                     trace := trace s @ write_attempt_events p document_id operations (remote w (attempts s))\<rparr>)"
  using assms
  by (cases "remote w (attempts s)" rule: err_of.cases)
     (simp_all add: GoogleDocsWrite_try_def GoogleDocsWrite_get_docs_service_def
        write_attempt_events_def)

lemma write_try_returns:
  assumes "remote w (attempts s) = Built (Returns d)"
  shows "GoogleDocsWrite_try w p document_id operations s =
           (Inr (json_dumps w d),
            s\<lparr>attempts := Suc (attempts s),
              trace := trace s @ write_attempt_events p document_id operations (remote w (attempts s)),
              outputs := (outputs s)(''success'' \<mapsto> OBool True)\<rparr>)"
  using assms
  by (simp add: GoogleDocsWrite_try_def GoogleDocsWrite_get_docs_service_def
        write_attempt_events_def set_output_def)

lemma write_loop_canceled_top:
  assumes "canceled w (polls s)"
  shows "GoogleDocsWrite_loop w p document_id operations (Suc n) last_e s =
           (Some NoResult, last_e, s\<lparr>polls := Suc (polls s)\<rparr>)"
  using assms by (simp add: check_if_canceled_def)

lemma write_loop_returns_step:
  assumes "\<not> canceled w (polls s)" and "remote w (attempts s) = Built (Returns d)"
  shows "GoogleDocsWrite_loop w p document_id operations (Suc n) last_e s =
           (Some (Text (json_dumps w d)), last_e,
            s\<lparr>polls := Suc (polls s), attempts := Suc (attempts s),
              trace := trace s @ write_attempt_events p document_id operations (Built (Returns d)),
              outputs := (outputs s)(''success'' \<mapsto> OBool True)\<rparr>)"
  using assms
  by (cases s) (simp add: check_if_canceled_def write_try_returns)

lemma write_loop_canceled_handler:
  assumes "\<not> canceled w (polls s)" and "err_of (remote w (attempts s)) = Some e"
    and "canceled w (Suc (polls s))"
  shows "GoogleDocsWrite_loop w p document_id operations (Suc n) last_e s =
           (Some NoResult, last_e,
            s\<lparr>polls := polls s + 2, attempts := Suc (attempts s),
              trace := trace s @ write_attempt_events p document_id operations (remote w (attempts s))\<rparr>)"
  using assms
  by (cases s) (simp add: check_if_canceled_def write_try_fails)

lemma write_loop_failed_step:
  assumes "\<not> canceled w (polls s)" and "\<not> canceled w (Suc (polls s))"
    and "err_of (remote w (attempts s)) = Some e"
  shows "GoogleDocsWrite_loop w p document_id operations (Suc n) last_e s =
         GoogleDocsWrite_loop w p document_id operations n e (write_after_failures w p document_id operations 1 s)"
  using assms
  by (cases s)
     (simp add: check_if_canceled_def write_try_fails time_sleep_def logging_exception_def
        err_msg_def write_after_failures_def)

lemma write_after_failures_Suc:
  "write_after_failures w p document_id operations k (write_after_failures w p document_id operations 1 s) =
   write_after_failures w p document_id operations (Suc k) s"
  by (cases s) (simp add: write_after_failures_def)

lemma write_loop_failures:
  assumes "\<forall>i<2 * k. \<not> canceled w (polls s + i)"
    and "\<forall>i<k. err_of (remote w (attempts s + i)) \<noteq> None"
  shows "GoogleDocsWrite_loop w p document_id operations (k + n) last_e s =
         GoogleDocsWrite_loop w p document_id operations n (last_error w (attempts s) k last_e)
           (write_after_failures w p document_id operations k s)"
  using assms
proof (induction k arbitrary: s last_e)
  case 0
  show ?case by (cases s) (simp add: last_error_def write_after_failures_def)
next
  case (Suc k)
  from Suc.prems(2) obtain e where e: "err_of (remote w (attempts s)) = Some e"
    by force
  let ?s = "write_after_failures w p document_id operations 1 s"
  have c0: "\<not> canceled w (polls s)" and c1: "\<not> canceled w (Suc (polls s))"
    using Suc.prems(1)[rule_format, of 0] Suc.prems(1)[rule_format, of 1] by simp_all
  have step: "GoogleDocsWrite_loop w p document_id operations (Suc k + n) last_e s =
              GoogleDocsWrite_loop w p document_id operations (k + n) e ?s"
    using write_loop_failed_step[OF c0 c1 e] by simp
  have c: "\<forall>i<2 * k. \<not> canceled w (polls ?s + i)"
  proof (intro allI impI)
    fix i assume "i < 2 * k"
    then have "i + 2 < 2 * Suc k" by simp
    from Suc.prems(1)[rule_format, OF this] show "\<not> canceled w (polls ?s + i)"
      by (simp add: write_after_failures_def add.commute)
  qed
  have f: "\<forall>i<k. err_of (remote w (attempts ?s + i)) \<noteq> None"
  proof (intro allI impI)
    fix i assume "i < k"
    then have "Suc i < Suc k" by simp
    from Suc.prems(2)[rule_format, OF this] show "err_of (remote w (attempts ?s + i)) \<noteq> None"
      by (simp add: write_after_failures_def)
  qed
  have a: "attempts ?s = Suc (attempts s)"
    by (simp add: write_after_failures_def)
  show ?case
    unfolding step Suc.IH[OF c f] a last_error_Suc[OF e, of k last_e] write_after_failures_Suc ..
qed

lemma delays_append: "delays (t @ u) = delays t @ delays u"
  by (induction t rule: delays.induct) simp_all

lemma logged_append: "logged (t @ u) = logged t @ logged u"
  by (induction t rule: logged.induct) simp_all

lemma n_attempts_append: "n_attempts (t @ u) = n_attempts t + n_attempts u"
  by (simp add: n_attempts_def)

lemma n_calls_append: "n_calls (t @ u) = n_calls t + n_calls u"
  by (simp add: n_calls_def)

lemma n_attempts_Cons:
  "n_attempts [] = 0"
  "n_attempts (ev # t) = (if is_Build ev then 1 else 0) + n_attempts t"
  by (simp_all add: n_attempts_def)

lemma n_calls_Cons:
  "n_calls [] = 0"
  "n_calls (ev # t) = (if is_call ev then 1 else 0) + n_calls t"
  by (simp_all add: n_calls_def)

lemma read_attempt_events_obs:
  "n_attempts (read_attempt_events p document_id oc) = 1"
  "delays (read_attempt_events p document_id oc) = []"
  "logged (read_attempt_events p document_id oc) = []"
  "n_calls (read_attempt_events p document_id oc) = (case oc of BuildFails e \<Rightarrow> 0 | Built c \<Rightarrow> 1)"
  by (simp_all add: read_attempt_events_def n_attempts_Cons n_calls_Cons split: outcome.split)

lemma read_failed_trace_obs:
  "n_attempts (read_failed_trace w p document_id a n) = n"
  "delays (read_failed_trace w p document_id a n) = replicate n (delay_after_error p)"
  "n_calls (read_failed_trace w p document_id a n) = n_built w a n"
  by (induction n arbitrary: a)
     (simp_all add: n_attempts_append delays_append n_calls_append read_attempt_events_obs
        n_attempts_Cons n_calls_Cons)

lemma write_attempt_events_obs:
  "n_attempts (write_attempt_events p document_id operations oc) = 1"
  "delays (write_attempt_events p document_id operations oc) = []"
  "logged (write_attempt_events p document_id operations oc) = []"
  "n_calls (write_attempt_events p document_id operations oc) = (case oc of BuildFails e \<Rightarrow> 0 | Built c \<Rightarrow> 1)"
  by (simp_all add: write_attempt_events_def n_attempts_Cons n_calls_Cons split: outcome.split)

lemma write_failed_trace_obs:
  "n_attempts (write_failed_trace w p document_id operations a n) = n"
  "delays (write_failed_trace w p document_id operations a n) = replicate n (delay_after_error p)"
  "n_calls (write_failed_trace w p document_id operations a n) = n_built w a n"
  by (induction n arbitrary: a)
     (simp_all add: n_attempts_append delays_append n_calls_append write_attempt_events_obs
        n_attempts_Cons n_calls_Cons)

lemma read_invoke_valid:
  assumes "\<not> canceled w 0" and "read_inputs_ok kwargs"
  shows "GoogleDocsRead_invoke w p kwargs =
     (case GoogleDocsRead_loop w p (document_id_of kwargs) (nat (max_retries p + 1)) ''''
             (init_state\<lparr>polls := 1\<rparr>) of
        (Some r, last_e, s') \<Rightarrow> (r, s')
      | (None, last_e, s') \<Rightarrow>
          if last_e \<noteq> [] then
            (Text (''GoogleDocsRead error: '' @ last_e),
             s'\<lparr>outputs := (outputs s')(''_ERROR'' \<mapsto> OStr last_e, ''success'' \<mapsto> OBool False)\<rparr>)
          else (AssertionFailure (outputs s'), s'))"
  using assms
  by (simp add: GoogleDocsRead_invoke_def check_if_canceled_def read_inputs_ok_def
        strip_get_blank document_id_of_def range_len_def set_output_def init_state_def
        split: prod.splits option.splits)

lemma write_invoke_valid:
  assumes "\<not> canceled w 0" and "write_inputs_ok w kwargs"
  shows "GoogleDocsWrite_invoke w p kwargs =
     (case GoogleDocsWrite_loop w p (document_id_of kwargs) (operations_of w kwargs)
             (nat (max_retries p + 1)) '''' (init_state\<lparr>polls := 1\<rparr>) of
        (Some r, last_e, s') \<Rightarrow> (r, s')
      | (None, last_e, s') \<Rightarrow>
          if last_e \<noteq> [] then
            (Text (''GoogleDocsWrite error: '' @ last_e),
             s'\<lparr>outputs := (outputs s')(''_ERROR'' \<mapsto> OStr last_e, ''success'' \<mapsto> OBool False)\<rparr>)
          else (AssertionFailure (outputs s'), s'))"
proof -
  from assms(2) obtain ops
    where l: "json_loads w (strip (kwargs_get kwargs ''operations'' '''')) = Loaded ops"
      and a: "isinstance_list ops"
      and d: "strip (kwargs_get kwargs ''document_id'' '''') \<noteq> []"
      and o: "strip (kwargs_get kwargs ''operations'' '''') \<noteq> []"
    by (auto simp: write_inputs_ok_def strip_get_blank split: loads_outcome.splits)
  show ?thesis
    using assms(1) l a d o
    by (simp add: GoogleDocsWrite_invoke_def check_if_canceled_def document_id_of_def
        operations_of_def range_len_def set_output_def init_state_def
        split: prod.splits option.splits)
qed

lemma read_failed_trace_logged:
  "length (logged (read_failed_trace w p document_id a n)) = n"
  by (induction n arbitrary: a) (simp_all add: logged_append read_attempt_events_obs)

lemma write_failed_trace_logged:
  "length (logged (write_failed_trace w p document_id operations a n)) = n"
  by (induction n arbitrary: a) (simp_all add: logged_append write_attempt_events_obs)

lemma read_after_failures_sel:
  "polls (read_after_failures w p document_id k s) = polls s + 2 * k"
  "attempts (read_after_failures w p document_id k s) = attempts s + k"
  "trace (read_after_failures w p document_id k s) =
     trace s @ read_failed_trace w p document_id (attempts s) k"
  "outputs (read_after_failures w p document_id k s) = outputs s"
  by (simp_all add: read_after_failures_def)

lemma write_after_failures_sel:
  "polls (write_after_failures w p document_id operations k s) = polls s + 2 * k"
  "attempts (write_after_failures w p document_id operations k s) = attempts s + k"
  "trace (write_after_failures w p document_id operations k s) =
     trace s @ write_failed_trace w p document_id operations (attempts s) k"
  "outputs (write_after_failures w p document_id operations k s) = outputs s"
  by (simp_all add: write_after_failures_def)

lemma read_invoke_all_fail:
  assumes "\<forall>i. \<not> canceled w i" and "read_inputs_ok kwargs"
    and "\<forall>i. err_of (remote w i) \<noteq> None"
  shows "GoogleDocsRead_invoke w p kwargs =
     (if last_error w 0 (nat (max_retries p + 1)) '''' \<noteq> [] then
        (Text (''GoogleDocsRead error: '' @ last_error w 0 (nat (max_retries p + 1)) ''''),
         (read_after_failures w p (document_id_of kwargs) (nat (max_retries p + 1))
            (init_state\<lparr>polls := 1\<rparr>))
          \<lparr>outputs := error_outputs (last_error w 0 (nat (max_retries p + 1)) '''')\<rparr>)
      else
        (AssertionFailure Map.empty,
         read_after_failures w p (document_id_of kwargs) (nat (max_retries p + 1))
            (init_state\<lparr>polls := 1\<rparr>)))"
proof -
  let ?N = "nat (max_retries p + 1)"
  let ?s = "init_state\<lparr>polls := 1\<rparr>"
  have a0: "attempts ?s = 0" by (simp add: init_state_def)
  have "GoogleDocsRead_loop w p (document_id_of kwargs) (?N + 0) '''' ?s =
        GoogleDocsRead_loop w p (document_id_of kwargs) 0 (last_error w (attempts ?s) ?N '''')
          (read_after_failures w p (document_id_of kwargs) ?N ?s)"
    using assms(1,3) by (intro read_loop_failures) simp_all
  then have loop: "GoogleDocsRead_loop w p (document_id_of kwargs) ?N '''' ?s =
        (None, last_error w 0 ?N '''', read_after_failures w p (document_id_of kwargs) ?N ?s)"
    by (simp add: init_state_def)
  have out: "outputs (read_after_failures w p (document_id_of kwargs) ?N ?s) = Map.empty"
    by (simp add: read_after_failures_def init_state_def)
  show ?thesis
    unfolding read_invoke_valid[OF assms(1)[rule_format, of 0] assms(2)] loop
    by (simp add: read_after_failures_sel write_after_failures_sel init_state_def
          error_outputs_def)
qed

lemma write_invoke_all_fail:
  assumes "\<forall>i. \<not> canceled w i" and "write_inputs_ok w kwargs"
    and "\<forall>i. err_of (remote w i) \<noteq> None"
  shows "GoogleDocsWrite_invoke w p kwargs =
     (if last_error w 0 (nat (max_retries p + 1)) '''' \<noteq> [] then
        (Text (''GoogleDocsWrite error: '' @ last_error w 0 (nat (max_retries p + 1)) ''''),
         (write_after_failures w p (document_id_of kwargs) (operations_of w kwargs)
            (nat (max_retries p + 1)) (init_state\<lparr>polls := 1\<rparr>))
          \<lparr>outputs := error_outputs (last_error w 0 (nat (max_retries p + 1)) '''')\<rparr>)
      else
        (AssertionFailure Map.empty,
         write_after_failures w p (document_id_of kwargs) (operations_of w kwargs)
            (nat (max_retries p + 1)) (init_state\<lparr>polls := 1\<rparr>)))"
proof -
  let ?N = "nat (max_retries p + 1)"
  let ?s = "init_state\<lparr>polls := 1\<rparr>"
  let ?d = "document_id_of kwargs"
  let ?o = "operations_of w kwargs"
  have a0: "attempts ?s = 0" by (simp add: init_state_def)
  have "GoogleDocsWrite_loop w p ?d ?o (?N + 0) '''' ?s =
        GoogleDocsWrite_loop w p ?d ?o 0 (last_error w (attempts ?s) ?N '''')
          (write_after_failures w p ?d ?o ?N ?s)"
    using assms(1,3) by (intro write_loop_failures) simp_all
  then have loop: "GoogleDocsWrite_loop w p ?d ?o ?N '''' ?s =
        (None, last_error w 0 ?N '''', write_after_failures w p ?d ?o ?N ?s)"
    by (simp add: init_state_def)
  have out: "outputs (write_after_failures w p ?d ?o ?N ?s) = Map.empty"
    by (simp add: write_after_failures_def init_state_def)
  show ?thesis
    unfolding write_invoke_valid[OF assms(1)[rule_format, of 0] assms(2)] loop
    by (simp add: read_after_failures_sel write_after_failures_sel init_state_def
          error_outputs_def)
qed

lemma deep_operations_length: "length deep_operations = 100000"
  by (simp add: deep_operations_def)

lemma deep_operations_other [simp]: "length s < 100000 \<Longrightarrow> (s = deep_operations) = False"
  using deep_operations_length by auto

lemma deep_operations_neq:
  "deep_operations \<noteq> []" "deep_operations \<noteq> ''[]''" "deep_operations \<noteq> ''{}''"
  by (rule notI, drule arg_cong[where f = length], simp add: deep_operations_length)+

lemma deep_operations_strip: "strip deep_operations = deep_operations"
  by (simp add: deep_operations_def strip_def isspace_def)

lemmas eval_defs =
  GoogleDocsRead_invoke_def GoogleDocsWrite_invoke_def check_if_canceled_def init_state_def
  GoogleDocsRead_try_def GoogleDocsWrite_try_def GoogleDocsRead_get_docs_service_def
  GoogleDocsWrite_get_docs_service_def set_output_def logging_exception_def time_sleep_def
  range_len_def kwargs_get_def strip_def isspace_def sample_world_def sample_loads_def
  sample_dumps_def read_kwargs_def write_kwargs_def not_json_kwargs_def object_kwargs_def
  blank_kwargs_def param0_def param1_def quota_world_def silent_world_def ok_world_def
  flaky_world_def canceled_world_def late_cancel_world_def Let_def

lemma sample_inputs_ok:
  "read_inputs_ok read_kwargs"
  "write_inputs_ok (sample_world c r) write_kwargs"
  by (simp_all add: read_inputs_ok_def write_inputs_ok_def read_kwargs_def write_kwargs_def
      isspace_def sample_world_def sample_loads_def kwargs_get_def strip_def)

lemma err_of_None:
  assumes "err_of oc = None"
  obtains d where "oc = Built (Returns d)"
  using assms by (cases oc rule: err_of.cases) simp_all

lemma read_loop_cancel_observed:
  assumes "GoogleDocsRead_loop w p document_id n last_e s = (r, last_e', s')"
  shows "polls s \<le> polls s' \<and>
         ((\<exists>i. polls s \<le> i \<and> i < polls s' \<and> canceled w i) \<longrightarrow>
            r = Some NoResult \<and> outputs s' = outputs s)"
  using assms
proof (induction n arbitrary: s last_e)
  case 0
  then show ?case by auto
next
  case (Suc n)
  show ?case
  proof (cases "canceled w (polls s)")
    case True
    from Suc.prems read_loop_canceled_top[OF True, of p document_id n last_e]
    show ?thesis by auto
  next
    case nc: False
    show ?thesis
    proof (cases "err_of (remote w (attempts s))")
      case None
      then obtain d where d: "remote w (attempts s) = Built (Returns d)"
        by (rule err_of_None)
      from Suc.prems read_loop_returns_step[OF nc d, of p document_id n last_e]
      have "polls s' = Suc (polls s)" by auto
      with nc show ?thesis by (auto simp: less_Suc_eq le_less)
    next
      case (Some e)
      show ?thesis
      proof (cases "canceled w (Suc (polls s))")
        case True
        from Suc.prems read_loop_canceled_handler[OF nc Some True, of p document_id n last_e]
        show ?thesis by auto
      next
        case False
        let ?s = "read_after_failures w p document_id 1 s"
        from Suc.prems read_loop_failed_step[OF nc False Some, of p document_id n last_e]
        have "GoogleDocsRead_loop w p document_id n e ?s = (r, last_e', s')" by simp
        from Suc.IH[OF this]
        have ih: "polls ?s \<le> polls s'"
          "(\<exists>i. polls ?s \<le> i \<and> i < polls s' \<and> canceled w i) \<longrightarrow>
            r = Some NoResult \<and> outputs s' = outputs ?s"
          by simp_all
        have ps: "polls ?s = polls s + 2" "outputs ?s = outputs s"
          by (simp_all add: read_after_failures_sel)
        have "\<And>i. polls s \<le> i \<Longrightarrow> canceled w i \<Longrightarrow> polls s + 2 \<le> i"
        proof -
          fix i assume a: "polls s \<le> i" "canceled w i"
          then have "i \<noteq> polls s" "i \<noteq> Suc (polls s)" using nc False by auto
          with a(1) show "polls s + 2 \<le> i" by simp
        qed
        with ih ps show ?thesis by (metis le_add1 le_trans)
      qed
    qed
  qed
qed

lemma read_invoke_cancel_observed:
  assumes "GoogleDocsRead_invoke w p kwargs = (r, s')" and "i < polls s'" and "canceled w i"
  shows "r = NoResult \<and> outputs s' = Map.empty"
proof (cases "canceled w 0")
  case True
  with assms(1) show ?thesis
    by (auto simp: GoogleDocsRead_invoke_def check_if_canceled_def init_state_def)
next
  case nc: False
  show ?thesis
  proof (cases "read_inputs_ok kwargs")
    case False
    with nc assms show ?thesis
      by (auto simp: GoogleDocsRead_invoke_def check_if_canceled_def init_state_def
          read_inputs_ok_def strip_get_blank set_output_def)
  next
    case True
    let ?s = "init_state\<lparr>polls := 1\<rparr>"
    obtain r0 le0 s0 where l: "GoogleDocsRead_loop w p (document_id_of kwargs)
        (nat (max_retries p + 1)) '''' ?s = (r0, le0, s0)"
      by (metis prod_cases3)
    from read_loop_cancel_observed[OF l]
    have c: "polls ?s \<le> polls s0"
       "(\<exists>i. polls ?s \<le> i \<and> i < polls s0 \<and> canceled w i) \<longrightarrow>
            r0 = Some NoResult \<and> outputs s0 = outputs ?s"
      by simp_all
    have ps: "polls s' = polls s0"
      using assms(1) unfolding read_invoke_valid[OF nc True] l
      by (auto split: option.splits if_splits)
    have "1 \<le> i" using nc assms(3) by (cases i) auto
    with c(2) assms(2,3) ps have "r0 = Some NoResult \<and> outputs s0 = Map.empty"
      by (auto simp: init_state_def)
    with assms(1) show ?thesis
      unfolding read_invoke_valid[OF nc True] l by auto
  qed
qed

lemma write_loop_cancel_observed:
  assumes "GoogleDocsWrite_loop w p document_id operations n last_e s = (r, last_e', s')"
  shows "polls s \<le> polls s' \<and>
         ((\<exists>i. polls s \<le> i \<and> i < polls s' \<and> canceled w i) \<longrightarrow>
            r = Some NoResult \<and> outputs s' = outputs s)"
  using assms
proof (induction n arbitrary: s last_e)
  case 0
  then show ?case by auto
next
  case (Suc n)
  show ?case
  proof (cases "canceled w (polls s)")
    case True
    from Suc.prems write_loop_canceled_top[OF True, of p document_id operations n last_e]
    show ?thesis by auto
  next
    case nc: False
    show ?thesis
    proof (cases "err_of (remote w (attempts s))")
      case None
      then obtain d where d: "remote w (attempts s) = Built (Returns d)"
        by (rule err_of_None)
      from Suc.prems write_loop_returns_step[OF nc d, of p document_id operations n last_e]
      have "polls s' = Suc (polls s)" by auto
      with nc show ?thesis by (auto simp: less_Suc_eq le_less)
    next
      case (Some e)
      show ?thesis
      proof (cases "canceled w (Suc (polls s))")
        case True
        from Suc.prems write_loop_canceled_handler[OF nc Some True, of p document_id operations n last_e]
        show ?thesis by auto
      next
        case False
        let ?s = "write_after_failures w p document_id operations 1 s"
        from Suc.prems write_loop_failed_step[OF nc False Some, of p document_id operations n last_e]
        have "GoogleDocsWrite_loop w p document_id operations n e ?s = (r, last_e', s')" by simp
        from Suc.IH[OF this]
        have ih: "polls ?s \<le> polls s'"
          "(\<exists>i. polls ?s \<le> i \<and> i < polls s' \<and> canceled w i) \<longrightarrow>
            r = Some NoResult \<and> outputs s' = outputs ?s"
          by simp_all
        have ps: "polls ?s = polls s + 2" "outputs ?s = outputs s"
          by (simp_all add: write_after_failures_sel)
        have "\<And>i. polls s \<le> i \<Longrightarrow> canceled w i \<Longrightarrow> polls s + 2 \<le> i"
        proof -
          fix i assume a: "polls s \<le> i" "canceled w i"
          then have "i \<noteq> polls s" "i \<noteq> Suc (polls s)" using nc False by auto
          with a(1) show "polls s + 2 \<le> i" by simp
        qed
        with ih ps show ?thesis by (metis le_add1 le_trans)
      qed
    qed
  qed
qed

lemma write_invoke_cancel_observed:
  assumes "GoogleDocsWrite_invoke w p kwargs = (r, s')" and "i < polls s'" and "canceled w i"
  shows "r = NoResult \<and> outputs s' = Map.empty"
proof (cases "canceled w 0")
  case True
  with assms(1) show ?thesis
    by (auto simp: GoogleDocsWrite_invoke_def check_if_canceled_def init_state_def)
next
  case nc: False
  show ?thesis
  proof (cases "write_inputs_ok w kwargs")
    case False
    with nc assms show ?thesis
      by (auto simp: GoogleDocsWrite_invoke_def check_if_canceled_def init_state_def
          write_inputs_ok_def strip_get_blank set_output_def Let_def
          split: loads_outcome.splits if_splits)
  next
    case True
    let ?s = "init_state\<lparr>polls := 1\<rparr>"
    obtain r0 le0 s0 where l: "GoogleDocsWrite_loop w p (document_id_of kwargs) (operations_of w kwargs)
        (nat (max_retries p + 1)) '''' ?s = (r0, le0, s0)"
      by (metis prod_cases3)
    from write_loop_cancel_observed[OF l]
    have c: "polls ?s \<le> polls s0"
       "(\<exists>i. polls ?s \<le> i \<and> i < polls s0 \<and> canceled w i) \<longrightarrow>
            r0 = Some NoResult \<and> outputs s0 = outputs ?s"
      by simp_all
    have ps: "polls s' = polls s0"
      using assms(1) unfolding write_invoke_valid[OF nc True] l
      by (auto split: option.splits if_splits)
    have "1 \<le> i" using nc assms(3) by (cases i) auto
    with c(2) assms(2,3) ps have "r0 = Some NoResult \<and> outputs s0 = Map.empty"
      by (auto simp: init_state_def)
    with assms(1) show ?thesis
      unfolding write_invoke_valid[OF nc True] l by auto
  qed
qed

lemma fresh_clients_append:
  "fresh_clients sc b prev (t @ u) =
     (fresh_clients sc b prev t \<and>
      fresh_clients sc b (if t = [] then prev else Some (last t)) u)"
  by (induction t arbitrary: prev) auto

lemma read_try_state:
  "snd (GoogleDocsRead_try w p document_id s) =
     s\<lparr>attempts := Suc (attempts s),
       trace := trace s @ read_attempt_events p document_id (remote w (attempts s))\<rparr>"
proof (cases "err_of (remote w (attempts s))")
  case None
  then obtain d where "remote w (attempts s) = Built (Returns d)" by (rule err_of_None)
  then show ?thesis by (simp add: read_try_returns)
next
  case (Some e)
  then show ?thesis by (simp add: read_try_fails)
qed

lemma read_loop_invariant:
  assumes "GoogleDocsRead_loop w p document_id n last_e s = (r, last_e', s')"
    and "I s"
    and "\<And>s. I s \<Longrightarrow> I (s\<lparr>polls := Suc (polls s)\<rparr>)"
    and "\<And>s. I s \<Longrightarrow> I (snd (GoogleDocsRead_try w p document_id s))"
    and "\<And>s m. I s \<Longrightarrow> I (logging_exception m s)"
    and "\<And>s d. I s \<Longrightarrow> I (time_sleep d s)"
  shows "I s'"
  using assms(1,2)
proof (induction n arbitrary: s last_e)
  case 0
  then show ?case by simp
next
  case (Suc n)
  let ?s1 = "s\<lparr>polls := Suc (polls s)\<rparr>"
  obtain x s2 where t: "GoogleDocsRead_try w p document_id ?s1 = (x, s2)"
    by (cases "GoogleDocsRead_try w p document_id ?s1") auto
  have i1: "I ?s1" using Suc.prems(2) by (rule assms(3))
  have i2: "I s2" using assms(4)[OF i1] t by simp
  let ?s3 = "s2\<lparr>polls := Suc (polls s2)\<rparr>"
  have i3: "I ?s3" using i2 by (rule assms(3))
  show ?case
  proof (cases "canceled w (polls s)")
    case True
    with Suc.prems(1) i1 show ?thesis by (auto simp: check_if_canceled_def)
  next
    case nc: False
    show ?thesis
    proof (cases x)
      case (Inr body)
      with Suc.prems(1) nc t i2 show ?thesis by (auto simp: check_if_canceled_def)
    next
      case (Inl e)
      show ?thesis
      proof (cases "canceled w (polls s2)")
        case True
        with Suc.prems(1) nc t Inl i3 show ?thesis by (auto simp: check_if_canceled_def)
      next
        case False
        let ?s4 = "time_sleep (delay_after_error p)
                     (logging_exception (''GoogleDocsRead error: '' @ e) ?s3)"
        have i4: "I ?s4" by (intro assms(5) assms(6) i3)
        have "GoogleDocsRead_loop w p document_id n e ?s4 = (r, last_e', s')"
          using Suc.prems(1) nc t Inl False by (simp add: check_if_canceled_def)
        from Suc.IH[OF this i4] show ?thesis .
      qed
    qed
  qed
qed

lemma read_loop_clients_fresh:
  assumes "GoogleDocsRead_loop w p document_id n last_e s = (r, last_e', s')"
    and "clients_fresh GoogleDocsRead_SCOPES p s"
  shows "clients_fresh GoogleDocsRead_SCOPES p s'"
  using assms
proof (rule read_loop_invariant)
  fix s assume "clients_fresh GoogleDocsRead_SCOPES p s"
  then show "clients_fresh GoogleDocsRead_SCOPES p (s\<lparr>polls := Suc (polls s)\<rparr>)"
    by (simp add: clients_fresh_def)
next
  fix s assume "clients_fresh GoogleDocsRead_SCOPES p s"
  then show "clients_fresh GoogleDocsRead_SCOPES p (snd (GoogleDocsRead_try w p document_id s))"
    unfolding read_try_state
    by (cases "remote w (attempts s)")
       (auto simp: clients_fresh_def fresh_clients_append read_attempt_events_def
          n_attempts_append n_calls_append n_attempts_Cons n_calls_Cons)
next
  fix s m assume "clients_fresh GoogleDocsRead_SCOPES p s"
  then show "clients_fresh GoogleDocsRead_SCOPES p (logging_exception m s)"
    by (auto simp: clients_fresh_def fresh_clients_append logging_exception_def
          n_attempts_append n_calls_append n_attempts_Cons n_calls_Cons)
next
  fix s d assume "clients_fresh GoogleDocsRead_SCOPES p s"
  then show "clients_fresh GoogleDocsRead_SCOPES p (time_sleep d s)"
    by (auto simp: clients_fresh_def fresh_clients_append time_sleep_def
          n_attempts_append n_calls_append n_attempts_Cons n_calls_Cons)
qed

lemma read_invoke_clients_fresh:
  "clients_fresh GoogleDocsRead_SCOPES p (snd (GoogleDocsRead_invoke w p kwargs))"
proof -
  have i0: "clients_fresh GoogleDocsRead_SCOPES p (init_state\<lparr>polls := Suc 0\<rparr>)"
    by (simp add: clients_fresh_def init_state_def n_attempts_Cons n_calls_Cons)
  have up: "\<And>s f. clients_fresh GoogleDocsRead_SCOPES p s
                 \<Longrightarrow> clients_fresh GoogleDocsRead_SCOPES p (s\<lparr>outputs := f\<rparr>)"
    by (simp add: clients_fresh_def)
  show ?thesis
  proof (cases "canceled w 0")
    case True
    then show ?thesis
      using i0 by (simp add: GoogleDocsRead_invoke_def check_if_canceled_def init_state_def)
  next
    case nc: False
    show ?thesis
    proof (cases "read_inputs_ok kwargs")
      case False
      with nc show ?thesis
        using up[OF i0]
        by (simp add: GoogleDocsRead_invoke_def check_if_canceled_def init_state_def
            read_inputs_ok_def strip_get_blank set_output_def)
    next
      case True
      obtain r0 le0 s0 where l: "GoogleDocsRead_loop w p (document_id_of kwargs)
          (nat (max_retries p + 1)) [] (init_state\<lparr>polls := 1\<rparr>) = (r0, le0, s0)"
        by (metis prod_cases3)
      have "clients_fresh GoogleDocsRead_SCOPES p s0"
        using l i0 by (intro read_loop_clients_fresh[OF l]) simp
      then show ?thesis
        unfolding read_invoke_valid[OF nc True] l
        by (auto intro: up split: option.splits)
    qed
  qed
qed

lemma write_try_state:
  "attempts (snd (GoogleDocsWrite_try w p document_id operations s)) = Suc (attempts s) \<and>
   trace (snd (GoogleDocsWrite_try w p document_id operations s)) =
     trace s @ write_attempt_events p document_id operations (remote w (attempts s))"
proof (cases "err_of (remote w (attempts s))")
  case None
  then obtain d where "remote w (attempts s) = Built (Returns d)" by (rule err_of_None)
  then show ?thesis by (simp add: write_try_returns)
next
  case (Some e)
  then show ?thesis by (simp add: write_try_fails)
qed

lemma write_loop_invariant:
  assumes "GoogleDocsWrite_loop w p document_id operations n last_e s = (r, last_e', s')"
    and "I s"
    and "\<And>s. I s \<Longrightarrow> I (s\<lparr>polls := Suc (polls s)\<rparr>)"
    and "\<And>s. I s \<Longrightarrow> I (snd (GoogleDocsWrite_try w p document_id operations s))"
    and "\<And>s m. I s \<Longrightarrow> I (logging_exception m s)"
    and "\<And>s d. I s \<Longrightarrow> I (time_sleep d s)"
  shows "I s'"
  using assms(1,2)
proof (induction n arbitrary: s last_e)
  case 0
  then show ?case by simp
next
  case (Suc n)
  let ?s1 = "s\<lparr>polls := Suc (polls s)\<rparr>"
  obtain x s2 where t: "GoogleDocsWrite_try w p document_id operations ?s1 = (x, s2)"
    by (cases "GoogleDocsWrite_try w p document_id operations ?s1") auto
  have i1: "I ?s1" using Suc.prems(2) by (rule assms(3))
  have i2: "I s2" using assms(4)[OF i1] t by simp
  let ?s3 = "s2\<lparr>polls := Suc (polls s2)\<rparr>"
  have i3: "I ?s3" using i2 by (rule assms(3))
  show ?case
  proof (cases "canceled w (polls s)")
    case True
    with Suc.prems(1) i1 show ?thesis by (auto simp: check_if_canceled_def)
  next
    case nc: False
    show ?thesis
    proof (cases x)
      case (Inr body)
      with Suc.prems(1) nc t i2 show ?thesis by (auto simp: check_if_canceled_def)
    next
      case (Inl e)
      show ?thesis
      proof (cases "canceled w (polls s2)")
        case True
        with Suc.prems(1) nc t Inl i3 show ?thesis by (auto simp: check_if_canceled_def)
      next
        case False
        let ?s4 = "time_sleep (delay_after_error p)
                     (logging_exception (''GoogleDocsWrite error: '' @ e) ?s3)"
        have i4: "I ?s4" by (intro assms(5) assms(6) i3)
        have "GoogleDocsWrite_loop w p document_id operations n e ?s4 = (r, last_e', s')"
          using Suc.prems(1) nc t Inl False by (simp add: check_if_canceled_def)
        from Suc.IH[OF this i4] show ?thesis .
      qed
    qed
  qed
qed

lemma write_loop_clients_fresh:
  assumes "GoogleDocsWrite_loop w p document_id operations n last_e s = (r, last_e', s')"
    and "clients_fresh GoogleDocsWrite_SCOPES p s"
  shows "clients_fresh GoogleDocsWrite_SCOPES p s'"
  using assms
proof (rule write_loop_invariant)
  fix s assume "clients_fresh GoogleDocsWrite_SCOPES p s"
  then show "clients_fresh GoogleDocsWrite_SCOPES p (s\<lparr>polls := Suc (polls s)\<rparr>)"
    by (simp add: clients_fresh_def)
next
  fix s assume "clients_fresh GoogleDocsWrite_SCOPES p s"
  then show "clients_fresh GoogleDocsWrite_SCOPES p (snd (GoogleDocsWrite_try w p document_id operations s))"
    by (cases "remote w (attempts s)")
       (auto simp: clients_fresh_def write_try_state fresh_clients_append write_attempt_events_def
          n_attempts_append n_calls_append n_attempts_Cons n_calls_Cons)
next
  fix s m assume "clients_fresh GoogleDocsWrite_SCOPES p s"
  then show "clients_fresh GoogleDocsWrite_SCOPES p (logging_exception m s)"
    by (auto simp: clients_fresh_def fresh_clients_append logging_exception_def
          n_attempts_append n_calls_append n_attempts_Cons n_calls_Cons)
next
  fix s d assume "clients_fresh GoogleDocsWrite_SCOPES p s"
  then show "clients_fresh GoogleDocsWrite_SCOPES p (time_sleep d s)"
    by (auto simp: clients_fresh_def fresh_clients_append time_sleep_def
          n_attempts_append n_calls_append n_attempts_Cons n_calls_Cons)
qed

lemma write_invoke_clients_fresh:
  "clients_fresh GoogleDocsWrite_SCOPES p (snd (GoogleDocsWrite_invoke w p kwargs))"
proof -
  have i0: "clients_fresh GoogleDocsWrite_SCOPES p (init_state\<lparr>polls := Suc 0\<rparr>)"
    by (simp add: clients_fresh_def init_state_def n_attempts_Cons n_calls_Cons)
  have up: "\<And>s f. clients_fresh GoogleDocsWrite_SCOPES p s
                 \<Longrightarrow> clients_fresh GoogleDocsWrite_SCOPES p (s\<lparr>outputs := f\<rparr>)"
    by (simp add: clients_fresh_def)
  show ?thesis
  proof (cases "canceled w 0")
    case True
    then show ?thesis
      using i0 by (simp add: GoogleDocsWrite_invoke_def check_if_canceled_def init_state_def)
  next
    case nc: False
    show ?thesis
    proof (cases "write_inputs_ok w kwargs")
      case False
      with nc show ?thesis
        using up[OF i0]
        by (auto simp: GoogleDocsWrite_invoke_def check_if_canceled_def init_state_def
            write_inputs_ok_def strip_get_blank set_output_def Let_def
            split: loads_outcome.splits)
    next
      case True
      obtain r0 le0 s0 where l: "GoogleDocsWrite_loop w p (document_id_of kwargs) (operations_of w kwargs)
          (nat (max_retries p + 1)) [] (init_state\<lparr>polls := 1\<rparr>) = (r0, le0, s0)"
        by (metis prod_cases3)
      have "clients_fresh GoogleDocsWrite_SCOPES p s0"
        using l i0 by (intro write_loop_clients_fresh[OF l]) simp
      then show ?thesis
        unfolding write_invoke_valid[OF nc True] l
        by (auto intro: up split: option.splits)
    qed
  qed
qed

lemma read_loop_after_failures:
  assumes "\<forall>i<2 * k + 1. \<not> canceled w i"
    and "\<forall>i<k. err_of (remote w i) \<noteq> None"
    and "int k \<le> max_retries p"
  shows "\<exists>m. GoogleDocsRead_loop w p document_id (nat (max_retries p + 1)) ''''
               (init_state\<lparr>polls := 1\<rparr>) =
             GoogleDocsRead_loop w p document_id (Suc m) (last_error w 0 k '''')
               (read_after_failures w p document_id k (init_state\<lparr>polls := 1\<rparr>))"
proof -
  let ?s = "init_state\<lparr>polls := 1\<rparr>"
  have n: "nat (max_retries p + 1) = k + Suc (nat (max_retries p) - k)"
    using assms(3) by simp
  have c: "\<forall>i<2 * k. \<not> canceled w (polls ?s + i)"
    using assms(1) by (simp add: init_state_def)
  have f: "\<forall>i<k. err_of (remote w (attempts ?s + i)) \<noteq> None"
    using assms(2) by (simp add: init_state_def)
  have a: "attempts ?s = 0" by (simp add: init_state_def)
  show ?thesis
    unfolding n read_loop_failures[OF c f] a by blast
qed

lemma read_invoke_succeeds:
  assumes "\<forall>i<2 * k + 2. \<not> canceled w i" and "read_inputs_ok kwargs"
    and "\<forall>i<k. err_of (remote w i) \<noteq> None"
    and "remote w k = Built (Returns d)"
    and "int k \<le> max_retries p"
  shows "GoogleDocsRead_invoke w p kwargs =
           (Text (json_dumps w d),
            \<lparr>polls = 2 * k + 2, attempts = k + 1,
             trace = read_failed_trace w p (document_id_of kwargs) 0 k @
                     read_attempt_events p (document_id_of kwargs) (Built (Returns d)),
             outputs = Map.empty\<rparr>)"
proof -
  let ?d = "document_id_of kwargs"
  let ?s = "read_after_failures w p ?d k (init_state\<lparr>polls := 1\<rparr>)"
  have c0: "\<not> canceled w 0" using assms(1) by simp
  have c: "\<forall>i<2 * k + 1. \<not> canceled w i" using assms(1) by simp
  from read_loop_after_failures[OF c assms(3,5)]
  obtain m where m: "GoogleDocsRead_loop w p ?d (nat (max_retries p + 1)) ''''
               (init_state\<lparr>polls := 1\<rparr>) =
             GoogleDocsRead_loop w p ?d (Suc m) (last_error w 0 k '''') ?s"
    by blast
  have ps: "polls ?s = 2 * k + 1" "attempts ?s = k"
    by (simp_all add: read_after_failures_sel init_state_def)
  have nc: "\<not> canceled w (polls ?s)" using assms(1) ps by simp
  have r: "remote w (attempts ?s) = Built (Returns d)" using assms(4) ps by simp
  show ?thesis
    unfolding read_invoke_valid[OF c0 assms(2)] m read_loop_returns_step[OF nc r]
    by (simp add: read_after_failures_def init_state_def)
qed

lemma read_invoke_canceled_in_handler:
  assumes "\<forall>i<2 * k + 2. \<not> canceled w i" and "canceled w (2 * k + 2)"
    and "read_inputs_ok kwargs"
    and "\<forall>i\<le>k. err_of (remote w i) \<noteq> None"
    and "int k \<le> max_retries p"
  shows "GoogleDocsRead_invoke w p kwargs =
           (NoResult,
            \<lparr>polls = 2 * k + 3, attempts = k + 1,
             trace = read_failed_trace w p (document_id_of kwargs) 0 k @
                     read_attempt_events p (document_id_of kwargs) (remote w k),
             outputs = Map.empty\<rparr>)"
proof -
  let ?d = "document_id_of kwargs"
  let ?s = "read_after_failures w p ?d k (init_state\<lparr>polls := 1\<rparr>)"
  have c0: "\<not> canceled w 0" using assms(1) by simp
  have c: "\<forall>i<2 * k + 1. \<not> canceled w i" using assms(1) by simp
  have f: "\<forall>i<k. err_of (remote w i) \<noteq> None" using assms(4) by simp
  from read_loop_after_failures[OF c f assms(5)]
  obtain m where m: "GoogleDocsRead_loop w p ?d (nat (max_retries p + 1)) ''''
               (init_state\<lparr>polls := 1\<rparr>) =
             GoogleDocsRead_loop w p ?d (Suc m) (last_error w 0 k '''') ?s"
    by blast
  have ps: "polls ?s = 2 * k + 1" "attempts ?s = k"
    by (simp_all add: read_after_failures_sel init_state_def)
  have nc: "\<not> canceled w (polls ?s)" using assms(1) ps by simp
  have ch: "canceled w (Suc (polls ?s))" using assms(2) ps by simp
  from assms(4) obtain e where e: "err_of (remote w (attempts ?s)) = Some e"
    unfolding ps by force
  show ?thesis
    unfolding read_invoke_valid[OF c0 assms(3)] m read_loop_canceled_handler[OF nc e ch]
    by (simp add: read_after_failures_def init_state_def)
qed

lemma read_invoke_canceled_early:
  assumes "canceled w 0 \<or> (read_inputs_ok kwargs \<and> 0 \<le> max_retries p \<and> canceled w 1)"
  shows "\<exists>s. GoogleDocsRead_invoke w p kwargs = (NoResult, s) \<and> trace s = [] \<and>
             attempts s = 0 \<and> outputs s = Map.empty"
proof (cases "canceled w 0")
  case True
  then show ?thesis
    by (simp add: GoogleDocsRead_invoke_def check_if_canceled_def init_state_def)
next
  case False
  with assms have ok: "read_inputs_ok kwargs" and m: "0 \<le> max_retries p"
    and c: "canceled w 1" by auto
  have n: "nat (max_retries p + 1) = Suc (nat (max_retries p))" using m by simp
  have c': "canceled w (polls (init_state\<lparr>polls := 1\<rparr>))" using c by simp
  show ?thesis
    unfolding read_invoke_valid[OF False ok] n read_loop_canceled_top[OF c']
    by (simp add: init_state_def)
qed

lemma write_loop_after_failures:
  assumes "\<forall>i<2 * k + 1. \<not> canceled w i"
    and "\<forall>i<k. err_of (remote w i) \<noteq> None"
    and "int k \<le> max_retries p"
  shows "\<exists>m. GoogleDocsWrite_loop w p document_id operations (nat (max_retries p + 1)) ''''
               (init_state\<lparr>polls := 1\<rparr>) =
             GoogleDocsWrite_loop w p document_id operations (Suc m) (last_error w 0 k '''')
               (write_after_failures w p document_id operations k (init_state\<lparr>polls := 1\<rparr>))"
proof -
  let ?s = "init_state\<lparr>polls := 1\<rparr>"
  have n: "nat (max_retries p + 1) = k + Suc (nat (max_retries p) - k)"
    using assms(3) by simp
  have c: "\<forall>i<2 * k. \<not> canceled w (polls ?s + i)"
    using assms(1) by (simp add: init_state_def)
  have f: "\<forall>i<k. err_of (remote w (attempts ?s + i)) \<noteq> None"
    using assms(2) by (simp add: init_state_def)
  have a: "attempts ?s = 0" by (simp add: init_state_def)
  show ?thesis
    unfolding n write_loop_failures[OF c f] a by blast
qed

lemma write_invoke_succeeds:
  assumes "\<forall>i<2 * k + 2. \<not> canceled w i" and "write_inputs_ok w kwargs"
    and "\<forall>i<k. err_of (remote w i) \<noteq> None"
    and "remote w k = Built (Returns d)"
    and "int k \<le> max_retries p"
  shows "GoogleDocsWrite_invoke w p kwargs =
           (Text (json_dumps w d),
            \<lparr>polls = 2 * k + 2, attempts = k + 1,
             trace = write_failed_trace w p (document_id_of kwargs) (operations_of w kwargs) 0 k @
                     write_attempt_events p (document_id_of kwargs) (operations_of w kwargs) (Built (Returns d)),
             outputs = [''success'' \<mapsto> OBool True]\<rparr>)"
proof -
  let ?d = "document_id_of kwargs"
  let ?o = "operations_of w kwargs"
  let ?s = "write_after_failures w p ?d ?o k (init_state\<lparr>polls := 1\<rparr>)"
  have c0: "\<not> canceled w 0" using assms(1) by simp
  have c: "\<forall>i<2 * k + 1. \<not> canceled w i" using assms(1) by simp
  from write_loop_after_failures[OF c assms(3,5)]
  obtain m where m: "GoogleDocsWrite_loop w p ?d ?o (nat (max_retries p + 1)) ''''
               (init_state\<lparr>polls := 1\<rparr>) =
             GoogleDocsWrite_loop w p ?d ?o (Suc m) (last_error w 0 k '''') ?s"
    by blast
  have ps: "polls ?s = 2 * k + 1" "attempts ?s = k"
    by (simp_all add: write_after_failures_sel init_state_def)
  have nc: "\<not> canceled w (polls ?s)" using assms(1) ps by simp
  have r: "remote w (attempts ?s) = Built (Returns d)" using assms(4) ps by simp
  show ?thesis
    unfolding write_invoke_valid[OF c0 assms(2)] m write_loop_returns_step[OF nc r]
    by (simp add: write_after_failures_def init_state_def)
qed

lemma write_invoke_canceled_in_handler:
  assumes "\<forall>i<2 * k + 2. \<not> canceled w i" and "canceled w (2 * k + 2)"
    and "write_inputs_ok w kwargs"
    and "\<forall>i\<le>k. err_of (remote w i) \<noteq> None"
    and "int k \<le> max_retries p"
  shows "GoogleDocsWrite_invoke w p kwargs =
           (NoResult,
            \<lparr>polls = 2 * k + 3, attempts = k + 1,
             trace = write_failed_trace w p (document_id_of kwargs) (operations_of w kwargs) 0 k @
                     write_attempt_events p (document_id_of kwargs) (operations_of w kwargs) (remote w k),
             outputs = Map.empty\<rparr>)"
proof -
  let ?d = "document_id_of kwargs"
  let ?o = "operations_of w kwargs"
  let ?s = "write_after_failures w p ?d ?o k (init_state\<lparr>polls := 1\<rparr>)"
  have c0: "\<not> canceled w 0" using assms(1) by simp
  have c: "\<forall>i<2 * k + 1. \<not> canceled w i" using assms(1) by simp
  have f: "\<forall>i<k. err_of (remote w i) \<noteq> None" using assms(4) by simp
  from write_loop_after_failures[OF c f assms(5)]
  obtain m where m: "GoogleDocsWrite_loop w p ?d ?o (nat (max_retries p + 1)) ''''
               (init_state\<lparr>polls := 1\<rparr>) =
             GoogleDocsWrite_loop w p ?d ?o (Suc m) (last_error w 0 k '''') ?s"
    by blast
  have ps: "polls ?s = 2 * k + 1" "attempts ?s = k"
    by (simp_all add: write_after_failures_sel init_state_def)
  have nc: "\<not> canceled w (polls ?s)" using assms(1) ps by simp
  have ch: "canceled w (Suc (polls ?s))" using assms(2) ps by simp
  from assms(4) obtain e where e: "err_of (remote w (attempts ?s)) = Some e"
    unfolding ps by force
  show ?thesis
    unfolding write_invoke_valid[OF c0 assms(3)] m write_loop_canceled_handler[OF nc e ch]
    by (simp add: write_after_failures_def init_state_def)
qed

lemma write_invoke_canceled_early:
  assumes "canceled w 0 \<or> (write_inputs_ok w kwargs \<and> 0 \<le> max_retries p \<and> canceled w 1)"
  shows "\<exists>s. GoogleDocsWrite_invoke w p kwargs = (NoResult, s) \<and> trace s = [] \<and>
             attempts s = 0 \<and> outputs s = Map.empty"
proof (cases "canceled w 0")
  case True
  then show ?thesis
    by (simp add: GoogleDocsWrite_invoke_def check_if_canceled_def init_state_def)
next
  case False
  with assms have ok: "write_inputs_ok w kwargs" and m: "0 \<le> max_retries p"
    and c: "canceled w 1" by auto
  have n: "nat (max_retries p + 1) = Suc (nat (max_retries p))" using m by simp
  have c': "canceled w (polls (init_state\<lparr>polls := 1\<rparr>))" using c by simp
  show ?thesis
    unfolding write_invoke_valid[OF False ok] n write_loop_canceled_top[OF c']
    by (simp add: init_state_def)
qed

section \<open>The properties\<close>

subsection \<open>Success on attempt k\<close>

text \<open>
  C1. For every invocation of either tool that is not canceled, passes input validation
  and whose remote call first succeeds on attempt \<open>k \<le> max_retries + 1\<close>: exactly \<open>k\<close>
  attempts occur, the output \<^verbatim>\<open>success\<close> is recorded as true, and the value returned
  is the serialized response body.

  The write tool does so (\<open>write_invoke_succeeds\<close>). The read tool returns the
  serialized body after exactly \<open>k\<close> attempts and never sets \<^verbatim>\<open>success\<close>
  (\<open>read_invoke_succeeds\<close>): with \<^verbatim>\<open>document_id = "doc-1"\<close> and a remote call
  that answers at once, its outputs are empty at the end, where the write tool on the
  same world has \<^verbatim>\<open>success = True\<close>.
\<close>

theorem read_success_not_recorded:
  "GoogleDocsRead_invoke ok_world param0 read_kwargs =
     (Text ''{}'',
      \<lparr>polls = 2, attempts = 1,
       trace = [Build GoogleDocsRead_SCOPES ''{}'',
                Get (Client GoogleDocsRead_SCOPES ''{}'') ''doc-1''],
       outputs = Map.empty\<rparr>)
   \<and> GoogleDocsWrite_invoke ok_world param0 write_kwargs =
     (Text ''{}'',
      \<lparr>polls = 2, attempts = 1,
       trace = [Build GoogleDocsWrite_SCOPES ''{}'',
                BatchUpdate (Client GoogleDocsWrite_SCOPES ''{}'') ''doc-1'' (JArr [])],
       outputs = [''success'' \<mapsto> OBool True]\<rparr>)"
  by (simp add: eval_defs eval_nat_numeral)

subsection \<open>Every attempt fails\<close>

text \<open>
  C2, as the code has it. For every invocation of either tool that is never canceled,
  passes input validation, has \<open>max_retries \<ge> 0\<close> and whose every attempt raises:
  exactly \<open>max_retries + 1\<close> attempts occur; each of them, the last one too, is followed
  by its log line and a sleep of \<^verbatim>\<open>delay_after_error\<close>, so there are
  \<open>max_retries + 1\<close> delays; and when the message of the last exception is not empty,
  the invocation returns \<^verbatim>\<open>"<tool> error: <message>"\<close> with \<^verbatim>\<open>_ERROR\<close> the
  message verbatim and \<^verbatim>\<open>success = False\<close>.
\<close>

theorem every_attempt_fails:
  assumes "\<forall>i. \<not> canceled w i" and "0 \<le> max_retries p"
    and "read_inputs_ok kr" and "write_inputs_ok w kw"
    and "\<forall>i. err_of (remote w i) \<noteq> None"
  shows "trace (snd (GoogleDocsRead_invoke w p kr)) =
           read_failed_trace w p (document_id_of kr) 0 (nat (max_retries p) + 1)
    \<and> trace (snd (GoogleDocsWrite_invoke w p kw)) =
           write_failed_trace w p (document_id_of kw) (operations_of w kw) 0
             (nat (max_retries p) + 1)
    \<and> attempts (snd (GoogleDocsRead_invoke w p kr)) = nat (max_retries p) + 1
    \<and> attempts (snd (GoogleDocsWrite_invoke w p kw)) = nat (max_retries p) + 1
    \<and> n_attempts (trace (snd (GoogleDocsRead_invoke w p kr))) = nat (max_retries p) + 1
    \<and> n_attempts (trace (snd (GoogleDocsWrite_invoke w p kw))) = nat (max_retries p) + 1
    \<and> delays (trace (snd (GoogleDocsRead_invoke w p kr))) =
           replicate (nat (max_retries p) + 1) (delay_after_error p)
    \<and> delays (trace (snd (GoogleDocsWrite_invoke w p kw))) =
           replicate (nat (max_retries p) + 1) (delay_after_error p)
    \<and> (err_msg (remote w (nat (max_retries p))) \<noteq> [] \<longrightarrow>
          fst (GoogleDocsRead_invoke w p kr) =
            Text (''GoogleDocsRead error: '' @ err_msg (remote w (nat (max_retries p))))
        \<and> fst (GoogleDocsWrite_invoke w p kw) =
            Text (''GoogleDocsWrite error: '' @ err_msg (remote w (nat (max_retries p))))
        \<and> outputs (snd (GoogleDocsRead_invoke w p kr)) =
            error_outputs (err_msg (remote w (nat (max_retries p))))
        \<and> outputs (snd (GoogleDocsWrite_invoke w p kw)) =
            error_outputs (err_msg (remote w (nat (max_retries p)))))"
proof -
  let ?N = "nat (max_retries p + 1)"
  let ?sr = "read_after_failures w p (document_id_of kr) ?N (init_state\<lparr>polls := 1\<rparr>)"
  let ?sw = "write_after_failures w p (document_id_of kw) (operations_of w kw) ?N
               (init_state\<lparr>polls := 1\<rparr>)"
  have N: "?N = nat (max_retries p) + 1" using assms(2) by simp
  have le: "last_error w 0 ?N '''' = err_msg (remote w (nat (max_retries p)))"
    by (simp add: last_error_def N)
  note r = read_invoke_all_fail[OF assms(1,3,5), of p]
  note wr = write_invoke_all_fail[OF assms(1,4,5), of p]
  have tr: "trace (snd (GoogleDocsRead_invoke w p kr)) = trace ?sr"
    and ar: "attempts (snd (GoogleDocsRead_invoke w p kr)) = attempts ?sr"
    unfolding r by simp_all
  have tw: "trace (snd (GoogleDocsWrite_invoke w p kw)) = trace ?sw"
    and aw: "attempts (snd (GoogleDocsWrite_invoke w p kw)) = attempts ?sw"
    unfolding wr by simp_all
  have tr': "trace ?sr = read_failed_trace w p (document_id_of kr) 0 (nat (max_retries p) + 1)"
    unfolding N by (simp add: read_after_failures_sel init_state_def)
  have tw': "trace ?sw = write_failed_trace w p (document_id_of kw) (operations_of w kw) 0
                    (nat (max_retries p) + 1)"
    unfolding N by (simp add: write_after_failures_sel init_state_def)
  have ar': "attempts ?sr = nat (max_retries p) + 1"
    unfolding N by (simp add: read_after_failures_sel init_state_def)
  have aw': "attempts ?sw = nat (max_retries p) + 1"
    unfolding N by (simp add: write_after_failures_sel init_state_def)
  have nr: "n_attempts (trace (snd (GoogleDocsRead_invoke w p kr))) = nat (max_retries p) + 1"
    unfolding tr tr' by (rule read_failed_trace_obs)
  have nw: "n_attempts (trace (snd (GoogleDocsWrite_invoke w p kw))) = nat (max_retries p) + 1"
    unfolding tw tw' by (rule write_failed_trace_obs)
  have dr: "delays (trace (snd (GoogleDocsRead_invoke w p kr))) =
           replicate (nat (max_retries p) + 1) (delay_after_error p)"
    unfolding tr tr' by (rule read_failed_trace_obs)
  have dw: "delays (trace (snd (GoogleDocsWrite_invoke w p kw))) =
           replicate (nat (max_retries p) + 1) (delay_after_error p)"
    unfolding tw tw' by (rule write_failed_trace_obs)
  have rep: "err_msg (remote w (nat (max_retries p))) \<noteq> [] \<longrightarrow>
          fst (GoogleDocsRead_invoke w p kr) =
            Text (''GoogleDocsRead error: '' @ err_msg (remote w (nat (max_retries p))))
        \<and> fst (GoogleDocsWrite_invoke w p kw) =
            Text (''GoogleDocsWrite error: '' @ err_msg (remote w (nat (max_retries p))))
        \<and> outputs (snd (GoogleDocsRead_invoke w p kr)) =
            error_outputs (err_msg (remote w (nat (max_retries p))))
        \<and> outputs (snd (GoogleDocsWrite_invoke w p kw)) =
            error_outputs (err_msg (remote w (nat (max_retries p))))"
    unfolding r wr le by simp
  show ?thesis
    using tr tr' tw tw' ar ar' aw aw' nr nw dr dw rep by simp
qed

text \<open>
  The scenario of the specification: \<open>max_retries = 2\<close>, every call failing with
  \<^verbatim>\<open>quota exceeded\<close>; and the same with exceptions whose message is empty, where
  the attempts and the delays are the same and no error is reported.
\<close>

theorem every_attempt_fails_witness:
  "(\<forall>i. \<not> canceled quota_world i) \<and> (\<forall>i. \<not> canceled silent_world i)
   \<and> 0 \<le> max_retries param0
   \<and> read_inputs_ok read_kwargs \<and> write_inputs_ok quota_world write_kwargs
   \<and> write_inputs_ok silent_world write_kwargs
   \<and> (\<forall>i. err_of (remote quota_world i) \<noteq> None)
   \<and> (\<forall>i. err_of (remote silent_world i) \<noteq> None)
   \<and> err_msg (remote quota_world (nat (max_retries param0))) \<noteq> []
   \<and> fst (GoogleDocsRead_invoke quota_world param0 read_kwargs) =
        Text ''GoogleDocsRead error: quota exceeded''
   \<and> fst (GoogleDocsWrite_invoke quota_world param0 write_kwargs) =
        Text ''GoogleDocsWrite error: quota exceeded''
   \<and> outputs (snd (GoogleDocsRead_invoke quota_world param0 read_kwargs)) =
        error_outputs ''quota exceeded''
   \<and> outputs (snd (GoogleDocsWrite_invoke quota_world param0 write_kwargs)) =
        error_outputs ''quota exceeded''
   \<and> n_attempts (trace (snd (GoogleDocsRead_invoke quota_world param0 read_kwargs))) = 3
   \<and> n_attempts (trace (snd (GoogleDocsWrite_invoke quota_world param0 write_kwargs))) = 3
   \<and> delays (trace (snd (GoogleDocsRead_invoke quota_world param0 read_kwargs))) = [2, 2, 2]
   \<and> delays (trace (snd (GoogleDocsWrite_invoke quota_world param0 write_kwargs))) = [2, 2, 2]
   \<and> n_attempts (trace (snd (GoogleDocsRead_invoke silent_world param0 read_kwargs))) = 3
   \<and> n_attempts (trace (snd (GoogleDocsWrite_invoke silent_world param0 write_kwargs))) = 3
   \<and> delays (trace (snd (GoogleDocsRead_invoke silent_world param0 read_kwargs))) = [2, 2, 2]
   \<and> delays (trace (snd (GoogleDocsWrite_invoke silent_world param0 write_kwargs))) = [2, 2, 2]"
proof -
  have h1: "\<forall>i. \<not> canceled quota_world i" "\<forall>i. \<not> canceled silent_world i"
    by (simp_all add: quota_world_def silent_world_def sample_world_def)
  have h2: "0 \<le> max_retries param0"
    by (simp add: param0_def)
  have h3: "read_inputs_ok read_kwargs" "write_inputs_ok quota_world write_kwargs"
    "write_inputs_ok silent_world write_kwargs"
    unfolding quota_world_def silent_world_def by (rule sample_inputs_ok)+
  have h5: "\<forall>i. err_of (remote quota_world i) \<noteq> None"
    "\<forall>i. err_of (remote silent_world i) \<noteq> None"
    by (simp_all add: quota_world_def silent_world_def sample_world_def)
  have m: "err_msg (remote quota_world (nat (max_retries param0))) = ''quota exceeded''"
    by (simp add: quota_world_def sample_world_def err_msg_def)
  have n: "nat (max_retries param0) + 1 = 3" "delay_after_error param0 = 2"
    by (simp_all add: param0_def)
  have rep: "replicate 3 (2::nat) = [2, 2, 2]"
    by (simp add: eval_nat_numeral)
  show ?thesis
    using h1 h2 h3 h5
      every_attempt_fails[OF h1(1) h2 h3(1) h3(2) h5(1)]
      every_attempt_fails[OF h1(2) h2 h3(1) h3(3) h5(2)]
    unfolding m n rep
    by (simp add: read_failed_trace_obs write_failed_trace_obs n rep)
qed

text \<open>
  C2 as stated fails twice. In the scenario of the specification the write tool sleeps
  three times, not twice: the handler sleeps after the last attempt as after any other.
  And when the exceptions carry an empty message, no \<^verbatim>\<open>_ERROR\<close> is reported: the
  invocation ends in the assertion.
\<close>

theorem every_attempt_fails_counterexample:
  "fst (GoogleDocsWrite_invoke quota_world param0 write_kwargs) =
     Text ''GoogleDocsWrite error: quota exceeded''
   \<and> n_attempts (trace (snd (GoogleDocsWrite_invoke quota_world param0 write_kwargs))) = 3
   \<and> delays (trace (snd (GoogleDocsWrite_invoke quota_world param0 write_kwargs))) = [2, 2, 2]
   \<and> length (delays (trace (snd (GoogleDocsWrite_invoke quota_world param0 write_kwargs)))) \<noteq> 2
   \<and> fst (GoogleDocsWrite_invoke silent_world param0 write_kwargs) = AssertionFailure Map.empty
   \<and> outputs (snd (GoogleDocsWrite_invoke silent_world param0 write_kwargs)) ''_ERROR'' = None"
  by (simp add: eval_defs eval_nat_numeral n_attempts_def)

subsection \<open>Missing document id\<close>

text \<open>
  C3, as the code has it. For every invocation of either tool that is not canceled at
  the initial check and whose \<^verbatim>\<open>document_id\<close> input is missing, empty or
  whitespace-only: the return value is \<^verbatim>\<open>"Error: document_id is required"\<close>,
  \<^verbatim>\<open>_ERROR\<close> is set, \<^verbatim>\<open>success\<close> is false, and no client is constructed and no
  remote call made.
\<close>

theorem missing_document_id:
  assumes "\<not> canceled w 0" and "blank (kwargs ''document_id'')"
  shows "GoogleDocsRead_invoke w p kwargs =
           (Text ''Error: document_id is required'',
            \<lparr>polls = 1, attempts = 0, trace = [],
             outputs = error_outputs ''document_id is required''\<rparr>)
       \<and> GoogleDocsWrite_invoke w p kwargs =
           (Text ''Error: document_id is required'',
            \<lparr>polls = 1, attempts = 0, trace = [],
             outputs = error_outputs ''document_id is required''\<rparr>)"
  using assms
  by (simp add: GoogleDocsRead_invoke_def GoogleDocsWrite_invoke_def check_if_canceled_def
      init_state_def strip_get_blank set_output_def error_outputs_def)

theorem missing_document_id_witness:
  "\<not> canceled ok_world 0 \<and> blank (blank_kwargs ''document_id'')
   \<and> blank (Map.empty ''document_id'')
   \<and> GoogleDocsRead_invoke ok_world param0 blank_kwargs =
           (Text ''Error: document_id is required'',
            \<lparr>polls = 1, attempts = 0, trace = [],
             outputs = error_outputs ''document_id is required''\<rparr>)
   \<and> GoogleDocsWrite_invoke ok_world param0 blank_kwargs =
           (Text ''Error: document_id is required'',
            \<lparr>polls = 1, attempts = 0, trace = [],
             outputs = error_outputs ''document_id is required''\<rparr>)
   \<and> GoogleDocsRead_invoke ok_world param0 Map.empty =
           (Text ''Error: document_id is required'',
            \<lparr>polls = 1, attempts = 0, trace = [],
             outputs = error_outputs ''document_id is required''\<rparr>)"
proof -
  have h1: "\<not> canceled ok_world 0"
    by (simp add: ok_world_def sample_world_def)
  have h2: "blank (blank_kwargs ''document_id'')"
    by (simp add: blank_kwargs_def isspace_def)
  have h3: "blank (Map.empty ''document_id'')"
    by simp
  show ?thesis
    using h1 h2 h3
      missing_document_id[where w = ok_world and kwargs = blank_kwargs and p = param0]
      missing_document_id[where w = ok_world and kwargs = Map.empty and p = param0]
    by simp
qed

text \<open>
  C3 as stated fails for an invocation that is canceled at the initial check: with
  \<^verbatim>\<open>document_id = ""\<close> it returns no value and sets no output.
\<close>

theorem missing_document_id_counterexample:
  "blank ([''document_id'' \<mapsto> ''''] ''document_id'')
   \<and> fst (GoogleDocsRead_invoke canceled_world param0 [''document_id'' \<mapsto> '''']) = NoResult
   \<and> outputs (snd (GoogleDocsRead_invoke canceled_world param0 [''document_id'' \<mapsto> '''']))
       = Map.empty
   \<and> fst (GoogleDocsWrite_invoke canceled_world param0 [''document_id'' \<mapsto> '''']) = NoResult
   \<and> outputs (snd (GoogleDocsWrite_invoke canceled_world param0 [''document_id'' \<mapsto> '''']))
       = Map.empty"
  by (simp add: GoogleDocsRead_invoke_def GoogleDocsWrite_invoke_def check_if_canceled_def
      init_state_def canceled_world_def sample_world_def)

subsection \<open>Rejected operations\<close>

text \<open>
  C4, as the code has it. For the write tool, for every invocation that is not canceled
  at the initial check and whose \<^verbatim>\<open>operations\<close> input the parser rejects with a
  \<^verbatim>\<open>JSONDecodeError\<close> or parses to something that is not a JSON array: the
  invocation reports an immediate, non-retried local error with
  \<^verbatim>\<open>success = False\<close>, \<^verbatim>\<open>_ERROR\<close> set, no client built, no remote call and no
  sleep; and when the parser is reached (neither input is blank), a
  \<^verbatim>\<open>JSONDecodeError\<close> \<open>e\<close> returns \<^verbatim>\<open>"Error: Invalid JSON in operations: "\<close>
  followed by \<open>e\<close>, and a parsed value that is not a list returns
  \<^verbatim>\<open>"Error: operations must be a JSON array"\<close>. Nothing is said of an input on
  which the parser raises another exception.
\<close>

theorem operations_rejected_locally:
  assumes "\<not> canceled w 0" and "operations_rejected w kwargs"
  shows "\<exists>r s. GoogleDocsWrite_invoke w p kwargs = (Text r, s)
     \<and> outputs s ''success'' = Some (OBool False)
     \<and> (\<exists>m. outputs s = error_outputs m)
     \<and> trace s = [] \<and> attempts s = 0 \<and> polls s = 1
     \<and> (blank (kwargs ''document_id'') \<or> blank (kwargs ''operations'') \<or>
         (case json_loads w (strip (kwargs_get kwargs ''operations'' '''')) of
            Loaded v \<Rightarrow> r = ''Error: operations must be a JSON array''
                     \<and> outputs s = error_outputs ''operations must be a JSON array''
          | JSONDecodeError e \<Rightarrow> r = ''Error: Invalid JSON in operations: '' @ e
                     \<and> outputs s = error_outputs (''Invalid JSON in operations: '' @ e)
          | OtherException e \<Rightarrow> False))"
  using assms
  by (auto simp: GoogleDocsWrite_invoke_def check_if_canceled_def init_state_def
      operations_rejected_def strip_get_blank set_output_def error_outputs_def Let_def
      split: loads_outcome.splits)

theorem operations_rejected_locally_witness:
  "\<not> canceled ok_world 0 \<and> operations_rejected ok_world not_json_kwargs
   \<and> operations_rejected ok_world object_kwargs
   \<and> (\<exists>s. GoogleDocsWrite_invoke ok_world param0 not_json_kwargs =
          (Text ''Error: Invalid JSON in operations: Expecting value: line 1 column 1 (char 0)'', s)
        \<and> outputs s =
            error_outputs ''Invalid JSON in operations: Expecting value: line 1 column 1 (char 0)''
        \<and> trace s = [] \<and> attempts s = 0)
   \<and> (\<exists>s. GoogleDocsWrite_invoke ok_world param0 object_kwargs =
          (Text ''Error: operations must be a JSON array'', s)
        \<and> outputs s = error_outputs ''operations must be a JSON array''
        \<and> trace s = [] \<and> attempts s = 0)"
proof -
  have h1: "\<not> canceled ok_world 0"
    by (simp add: ok_world_def sample_world_def)
  have h2: "operations_rejected ok_world not_json_kwargs"
    by (simp add: operations_rejected_def eval_defs)
  have h3: "operations_rejected ok_world object_kwargs"
    by (simp add: operations_rejected_def eval_defs)
  have b: "\<not> blank (not_json_kwargs ''document_id'')" "\<not> blank (not_json_kwargs ''operations'')"
    "\<not> blank (object_kwargs ''document_id'')" "\<not> blank (object_kwargs ''operations'')"
    by (simp_all add: not_json_kwargs_def object_kwargs_def isspace_def)
  have l: "json_loads ok_world (strip (kwargs_get not_json_kwargs ''operations'' '''')) =
             JSONDecodeError ''Expecting value: line 1 column 1 (char 0)''"
    "json_loads ok_world (strip (kwargs_get object_kwargs ''operations'' '''')) = Loaded (JObj [])"
    by (simp_all add: eval_defs)
  show ?thesis
    using h1 h2 h3 operations_rejected_locally[OF h1 h2, of param0]
      operations_rejected_locally[OF h1 h3, of param0]
    by (auto simp: b l)
qed

text \<open>
  C4 as stated fails for an invocation that is canceled at the initial check: with
  \<^verbatim>\<open>operations = "not json"\<close> it reports no error at all. It also fails on an
  input that is not valid JSON and on which the parser raises something else than a
  \<^verbatim>\<open>JSONDecodeError\<close>: on one hundred thousand open brackets the
  \<^verbatim>\<open>RecursionError\<close> leaves \<^verbatim>\<open>_invoke\<close>, with no value returned and no output
  set.
\<close>

theorem operations_rejected_locally_counterexample:
  "operations_rejected canceled_world not_json_kwargs
   \<and> fst (GoogleDocsWrite_invoke canceled_world param0 not_json_kwargs) = NoResult
   \<and> outputs (snd (GoogleDocsWrite_invoke canceled_world param0 not_json_kwargs)) = Map.empty
   \<and> \<not> canceled ok_world 0
   \<and> GoogleDocsWrite_invoke ok_world param0 deep_kwargs =
       (Raises ''maximum recursion depth exceeded while decoding a JSON array from a unicode string'',
        \<lparr>polls = 1, attempts = 0, trace = [], outputs = Map.empty\<rparr>)"
proof -
  have d: "strip (kwargs_get deep_kwargs ''document_id'' '''') = ''doc-1''"
    by (simp add: deep_kwargs_def kwargs_get_def strip_def isspace_def)
  have o: "strip (kwargs_get deep_kwargs ''operations'' '''') = deep_operations"
    by (simp add: deep_kwargs_def kwargs_get_def deep_operations_strip)
  have l: "json_loads ok_world deep_operations =
      OtherException
        ''maximum recursion depth exceeded while decoding a JSON array from a unicode string''"
    by (simp add: ok_world_def sample_world_def sample_loads_def deep_operations_neq)
  have "GoogleDocsWrite_invoke ok_world param0 deep_kwargs =
       (Raises ''maximum recursion depth exceeded while decoding a JSON array from a unicode string'',
        \<lparr>polls = 1, attempts = 0, trace = [], outputs = Map.empty\<rparr>)"
    unfolding GoogleDocsWrite_invoke_def Let_def d o l
    by (simp add: check_if_canceled_def init_state_def ok_world_def sample_world_def
        deep_operations_neq)
  then show ?thesis
    by (simp add: operations_rejected_def eval_defs)
qed

subsection \<open>The loop runs out with no error captured\<close>

text \<open>
  C5. For every invocation of either tool, if the retry loop runs out with no
  \<^verbatim>\<open>return\<close> and with \<^verbatim>\<open>last_e\<close> empty, the invocation ends in the assertion
  failure (carrying the outputs), and not in a returned value.
\<close>

theorem loop_exhausted_without_error:
  assumes "\<not> canceled w 0"
    and "read_inputs_ok kr" and "write_inputs_ok w kw"
    and "GoogleDocsRead_loop w p (document_id_of kr) (range_len (max_retries p + 1)) ''''
           (init_state\<lparr>polls := 1\<rparr>) = (None, [], sr)"
    and "GoogleDocsWrite_loop w p (document_id_of kw) (operations_of w kw)
           (range_len (max_retries p + 1)) '''' (init_state\<lparr>polls := 1\<rparr>) = (None, [], sw)"
  shows "GoogleDocsRead_invoke w p kr = (AssertionFailure (outputs sr), sr)
       \<and> GoogleDocsWrite_invoke w p kw = (AssertionFailure (outputs sw), sw)"
  using assms(4,5)
  unfolding read_invoke_valid[OF assms(1,2)] write_invoke_valid[OF assms(1,3)] range_len_def
  by simp

theorem loop_exhausted_without_error_witness:
  "\<not> canceled silent_world 0
   \<and> read_inputs_ok read_kwargs \<and> write_inputs_ok silent_world write_kwargs
   \<and> GoogleDocsRead_loop silent_world param0 (document_id_of read_kwargs)
        (range_len (max_retries param0 + 1)) '''' (init_state\<lparr>polls := 1\<rparr>)
        = (None, [], silent_read_final)
   \<and> GoogleDocsWrite_loop silent_world param0 (document_id_of write_kwargs)
        (operations_of silent_world write_kwargs)
        (range_len (max_retries param0 + 1)) '''' (init_state\<lparr>polls := 1\<rparr>)
        = (None, [], silent_write_final)
   \<and> GoogleDocsRead_invoke silent_world param0 read_kwargs
        = (AssertionFailure Map.empty, silent_read_final)
   \<and> GoogleDocsWrite_invoke silent_world param0 write_kwargs
        = (AssertionFailure Map.empty, silent_write_final)"
proof -
  have h1: "\<not> canceled silent_world 0"
    by (simp add: silent_world_def sample_world_def)
  have h2: "read_inputs_ok read_kwargs" "write_inputs_ok silent_world write_kwargs"
    unfolding silent_world_def by (rule sample_inputs_ok)+
  have h4: "GoogleDocsRead_loop silent_world param0 (document_id_of read_kwargs)
        (range_len (max_retries param0 + 1)) '''' (init_state\<lparr>polls := 1\<rparr>)
        = (None, [], silent_read_final)"
    by (simp add: eval_defs document_id_of_def silent_read_final_def eval_nat_numeral)
  have h5: "GoogleDocsWrite_loop silent_world param0 (document_id_of write_kwargs)
        (operations_of silent_world write_kwargs)
        (range_len (max_retries param0 + 1)) '''' (init_state\<lparr>polls := 1\<rparr>)
        = (None, [], silent_write_final)"
    by (simp add: eval_defs document_id_of_def operations_of_def silent_write_final_def
        eval_nat_numeral)
  have o: "outputs silent_read_final = Map.empty" "outputs silent_write_final = Map.empty"
    by (simp_all add: silent_read_final_def silent_write_final_def)
  show ?thesis
    using h1 h2 h4 h5 loop_exhausted_without_error[OF h1 h2 h4 h5]
    by (simp add: o)
qed

subsection \<open>Cancellation seen in the exception handler\<close>

text \<open>
  C6. For every invocation of either tool: if attempt number \<open>j\<close> (counting from 0,
  after \<open>j\<close> failed attempts) raises an exception and the poll in its handler sees the
  flag set, the invocation returns at once with no value; the exception is not
  recorded: no \<^verbatim>\<open>_ERROR\<close> and no other output, no log line and no sleep for it (the
  trace ends with the events of the attempt itself), and no further attempt. And in
  every invocation whatever, once a poll has seen the flag set, the invocation returns
  no value and its outputs are empty: no remote error is reported.
\<close>

theorem canceled_in_handler:
  "(read_inputs_ok kr \<and> write_inputs_ok w kw \<and> int j \<le> max_retries p \<and>
    (\<forall>i. i \<le> j \<longrightarrow> err_of (remote w i) \<noteq> None) \<and>
    (\<forall>i. i < 2 * j + 2 \<longrightarrow> \<not> canceled w i) \<and> canceled w (2 * j + 2)
    \<longrightarrow>
      GoogleDocsRead_invoke w p kr =
        (NoResult,
         \<lparr>polls = 2 * j + 3, attempts = j + 1,
          trace = read_failed_trace w p (document_id_of kr) 0 j @
                  read_attempt_events p (document_id_of kr) (remote w j),
          outputs = Map.empty\<rparr>)
    \<and> GoogleDocsWrite_invoke w p kw =
        (NoResult,
         \<lparr>polls = 2 * j + 3, attempts = j + 1,
          trace = write_failed_trace w p (document_id_of kw) (operations_of w kw) 0 j @
                  write_attempt_events p (document_id_of kw) (operations_of w kw) (remote w j),
          outputs = Map.empty\<rparr>))
   \<and> ((\<exists>i. i < polls (snd (GoogleDocsRead_invoke w p kr)) \<and> canceled w i) \<longrightarrow>
        fst (GoogleDocsRead_invoke w p kr) = NoResult \<and>
        outputs (snd (GoogleDocsRead_invoke w p kr)) = Map.empty)
   \<and> ((\<exists>i. i < polls (snd (GoogleDocsWrite_invoke w p kw)) \<and> canceled w i) \<longrightarrow>
        fst (GoogleDocsWrite_invoke w p kw) = NoResult \<and>
        outputs (snd (GoogleDocsWrite_invoke w p kw)) = Map.empty)"
proof (intro conjI impI)
  assume a: "read_inputs_ok kr \<and> write_inputs_ok w kw \<and> int j \<le> max_retries p \<and>
    (\<forall>i. i \<le> j \<longrightarrow> err_of (remote w i) \<noteq> None) \<and>
    (\<forall>i. i < 2 * j + 2 \<longrightarrow> \<not> canceled w i) \<and> canceled w (2 * j + 2)"
  then have nc: "\<forall>i<2 * j + 2. \<not> canceled w i" and c: "canceled w (2 * j + 2)"
    and f: "\<forall>i\<le>j. err_of (remote w i) \<noteq> None" and m: "int j \<le> max_retries p"
    and okr: "read_inputs_ok kr" and okw: "write_inputs_ok w kw"
    by simp_all
  show "GoogleDocsRead_invoke w p kr =
        (NoResult,
         \<lparr>polls = 2 * j + 3, attempts = j + 1,
          trace = read_failed_trace w p (document_id_of kr) 0 j @
                  read_attempt_events p (document_id_of kr) (remote w j),
          outputs = Map.empty\<rparr>)"
    by (rule read_invoke_canceled_in_handler[OF nc c okr f m])
  show "GoogleDocsWrite_invoke w p kw =
        (NoResult,
         \<lparr>polls = 2 * j + 3, attempts = j + 1,
          trace = write_failed_trace w p (document_id_of kw) (operations_of w kw) 0 j @
                  write_attempt_events p (document_id_of kw) (operations_of w kw) (remote w j),
          outputs = Map.empty\<rparr>)"
    by (rule write_invoke_canceled_in_handler[OF nc c okw f m])
next
  assume "\<exists>i. i < polls (snd (GoogleDocsRead_invoke w p kr)) \<and> canceled w i"
  then obtain i where i: "i < polls (snd (GoogleDocsRead_invoke w p kr))" "canceled w i"
    by blast
  have e: "GoogleDocsRead_invoke w p kr =
      (fst (GoogleDocsRead_invoke w p kr), snd (GoogleDocsRead_invoke w p kr))"
    by simp
  from read_invoke_cancel_observed[OF e i]
  show "fst (GoogleDocsRead_invoke w p kr) = NoResult"
    "outputs (snd (GoogleDocsRead_invoke w p kr)) = Map.empty"
    by simp_all
next
  assume "\<exists>i. i < polls (snd (GoogleDocsWrite_invoke w p kw)) \<and> canceled w i"
  then obtain i where i: "i < polls (snd (GoogleDocsWrite_invoke w p kw))" "canceled w i"
    by blast
  have e: "GoogleDocsWrite_invoke w p kw =
      (fst (GoogleDocsWrite_invoke w p kw), snd (GoogleDocsWrite_invoke w p kw))"
    by simp
  from write_invoke_cancel_observed[OF e i]
  show "fst (GoogleDocsWrite_invoke w p kw) = NoResult"
    "outputs (snd (GoogleDocsWrite_invoke w p kw)) = Map.empty"
    by simp_all
qed

text \<open>
  The second attempt fails and the poll in its handler (poll number 4) sees the flag:
  the first failure was logged and slept on, the second was not.
\<close>

theorem canceled_in_handler_witness:
  "read_inputs_ok read_kwargs \<and> write_inputs_ok (late_cancel_world 4) write_kwargs
   \<and> int 1 \<le> max_retries param0
   \<and> (\<forall>i. err_of (remote (late_cancel_world 4) i) \<noteq> None)
   \<and> \<not> (\<exists>i. i < 4 \<and> canceled (late_cancel_world 4) i)
   \<and> canceled (late_cancel_world 4) 4
   \<and> GoogleDocsRead_invoke (late_cancel_world 4) param0 read_kwargs =
        (NoResult,
         \<lparr>polls = 5, attempts = 2,
          trace = [Build GoogleDocsRead_SCOPES ''{}'',
                   Get (Client GoogleDocsRead_SCOPES ''{}'') ''doc-1'',
                   Log ''GoogleDocsRead error: quota exceeded'', Sleep 2,
                   Build GoogleDocsRead_SCOPES ''{}'',
                   Get (Client GoogleDocsRead_SCOPES ''{}'') ''doc-1''],
          outputs = Map.empty\<rparr>)
   \<and> GoogleDocsWrite_invoke (late_cancel_world 4) param0 write_kwargs =
        (NoResult,
         \<lparr>polls = 5, attempts = 2,
          trace = [Build GoogleDocsWrite_SCOPES ''{}'',
                   BatchUpdate (Client GoogleDocsWrite_SCOPES ''{}'') ''doc-1'' (JArr []),
                   Log ''GoogleDocsWrite error: quota exceeded'', Sleep 2,
                   Build GoogleDocsWrite_SCOPES ''{}'',
                   BatchUpdate (Client GoogleDocsWrite_SCOPES ''{}'') ''doc-1'' (JArr [])],
          outputs = Map.empty\<rparr>)"
proof -
  let ?w = "late_cancel_world 4"
  have h1: "read_inputs_ok read_kwargs" "write_inputs_ok ?w write_kwargs"
    unfolding late_cancel_world_def by (rule sample_inputs_ok)+
  have h2: "int 1 \<le> max_retries param0"
    by (simp add: param0_def)
  have h3: "\<forall>i. err_of (remote ?w i) \<noteq> None"
    by (simp add: late_cancel_world_def sample_world_def)
  have h4: "\<not> (\<exists>i. i < 4 \<and> canceled ?w i)"
    by (simp add: late_cancel_world_def sample_world_def)
  have h5: "canceled ?w 4"
    by (simp add: late_cancel_world_def sample_world_def)
  have h4': "\<forall>i. i < 2 * 1 + 2 \<longrightarrow> \<not> canceled ?w i"
    by (simp add: late_cancel_world_def sample_world_def)
  have d: "document_id_of read_kwargs = ''doc-1''" "document_id_of write_kwargs = ''doc-1''"
    "operations_of ?w write_kwargs = JArr []"
    by (simp_all add: document_id_of_def operations_of_def eval_defs)
  have r: "\<And>i. remote ?w i = Built (CallFails ''quota exceeded'')"
    by (simp add: late_cancel_world_def sample_world_def)
  have "GoogleDocsRead_invoke ?w param0 read_kwargs =
        (NoResult,
         \<lparr>polls = 2 * 1 + 3, attempts = 1 + 1,
          trace = read_failed_trace ?w param0 (document_id_of read_kwargs) 0 1 @
                  read_attempt_events param0 (document_id_of read_kwargs) (remote ?w 1),
          outputs = Map.empty\<rparr>)
    \<and> GoogleDocsWrite_invoke ?w param0 write_kwargs =
        (NoResult,
         \<lparr>polls = 2 * 1 + 3, attempts = 1 + 1,
          trace = write_failed_trace ?w param0 (document_id_of write_kwargs)
                    (operations_of ?w write_kwargs) 0 1 @
                  write_attempt_events param0 (document_id_of write_kwargs)
                    (operations_of ?w write_kwargs) (remote ?w 1),
          outputs = Map.empty\<rparr>)"
    using canceled_in_handler[of read_kwargs ?w write_kwargs 1 param0] h1 h2 h3 h4' h5
    by simp
  then show ?thesis
    using h1 h2 h3 h4 h5
    by (simp add: d r read_attempt_events_def write_attempt_events_def err_msg_def param0_def)
qed

subsection \<open>Cancellation before any attempt\<close>

text \<open>
  C7. For every invocation of either tool in which cancellation is seen before any
  attempt, at the initial check or at the top of the first loop iteration (which a
  valid invocation with \<open>max_retries \<ge> 0\<close> reaches): no client is built, no remote
  call is made, no output field is set, and the invocation returns no value.
\<close>

theorem canceled_before_first_attempt:
  "(canceled w 0 \<or> (read_inputs_ok kr \<and> 0 \<le> max_retries p \<and> canceled w 1) \<longrightarrow>
      (\<exists>s. GoogleDocsRead_invoke w p kr = (NoResult, s) \<and> trace s = [] \<and>
           attempts s = 0 \<and> outputs s = Map.empty))
   \<and> (canceled w 0 \<or> (write_inputs_ok w kw \<and> 0 \<le> max_retries p \<and> canceled w 1) \<longrightarrow>
      (\<exists>s. GoogleDocsWrite_invoke w p kw = (NoResult, s) \<and> trace s = [] \<and>
           attempts s = 0 \<and> outputs s = Map.empty))"
  using read_invoke_canceled_early[of w kr p] write_invoke_canceled_early[of w kw p]
  by blast

theorem canceled_before_first_attempt_witness:
  "canceled canceled_world 0
   \<and> \<not> canceled (late_cancel_world 1) 0 \<and> canceled (late_cancel_world 1) 1
   \<and> read_inputs_ok read_kwargs \<and> write_inputs_ok (late_cancel_world 1) write_kwargs
   \<and> 0 \<le> max_retries param0
   \<and> (\<exists>s. GoogleDocsRead_invoke canceled_world param0 read_kwargs = (NoResult, s) \<and>
           trace s = [] \<and> attempts s = 0 \<and> outputs s = Map.empty)
   \<and> (\<exists>s. GoogleDocsWrite_invoke canceled_world param0 write_kwargs = (NoResult, s) \<and>
           trace s = [] \<and> attempts s = 0 \<and> outputs s = Map.empty)
   \<and> (\<exists>s. GoogleDocsRead_invoke (late_cancel_world 1) param0 read_kwargs = (NoResult, s) \<and>
           trace s = [] \<and> attempts s = 0 \<and> outputs s = Map.empty)
   \<and> (\<exists>s. GoogleDocsWrite_invoke (late_cancel_world 1) param0 write_kwargs = (NoResult, s) \<and>
           trace s = [] \<and> attempts s = 0 \<and> outputs s = Map.empty)"
proof -
  have h1: "canceled canceled_world 0"
    by (simp add: canceled_world_def sample_world_def)
  have h2: "\<not> canceled (late_cancel_world 1) 0" "canceled (late_cancel_world 1) 1"
    by (simp_all add: late_cancel_world_def sample_world_def)
  have h3: "read_inputs_ok read_kwargs" "write_inputs_ok (late_cancel_world 1) write_kwargs"
    unfolding late_cancel_world_def by (rule sample_inputs_ok)+
  have h4: "0 \<le> max_retries param0"
    by (simp add: param0_def)
  show ?thesis
    using h1 h2 h3 h4
      canceled_before_first_attempt[of canceled_world read_kwargs param0 write_kwargs]
      canceled_before_first_attempt[of "late_cancel_world 1" read_kwargs param0 write_kwargs]
    by simp
qed

subsection \<open>Scopes and one client per attempt\<close>

text \<open>
  C8. In every invocation, the read tool builds its clients with exactly the two
  read-only scopes and the write tool with exactly the two read-write scopes, from the
  credential blob of the parameters; one client is built per pass through the
  \<^verbatim>\<open>try\<close> block, and every remote call comes directly after the construction of the
  client it uses.
\<close>

theorem scoped_client_per_attempt:
  "GoogleDocsRead_SCOPES =
     [''https://www.googleapis.com/auth/documents.readonly'',
      ''https://www.googleapis.com/auth/drive.readonly'']
   \<and> GoogleDocsWrite_SCOPES =
     [''https://www.googleapis.com/auth/documents'',
      ''https://www.googleapis.com/auth/drive'']
   \<and> fresh_clients GoogleDocsRead_SCOPES (service_account_json p) None
        (trace (snd (GoogleDocsRead_invoke w p kr)))
   \<and> n_attempts (trace (snd (GoogleDocsRead_invoke w p kr)))
        = attempts (snd (GoogleDocsRead_invoke w p kr))
   \<and> n_calls (trace (snd (GoogleDocsRead_invoke w p kr)))
        \<le> attempts (snd (GoogleDocsRead_invoke w p kr))
   \<and> fresh_clients GoogleDocsWrite_SCOPES (service_account_json p) None
        (trace (snd (GoogleDocsWrite_invoke w p kw)))
   \<and> n_attempts (trace (snd (GoogleDocsWrite_invoke w p kw)))
        = attempts (snd (GoogleDocsWrite_invoke w p kw))
   \<and> n_calls (trace (snd (GoogleDocsWrite_invoke w p kw)))
        \<le> attempts (snd (GoogleDocsWrite_invoke w p kw))"
  using read_invoke_clients_fresh[of p w kr] write_invoke_clients_fresh[of p w kw]
  by (simp add: clients_fresh_def GoogleDocsRead_SCOPES_def GoogleDocsWrite_SCOPES_def)

text \<open>On \<open>flaky_world\<close> each tool makes two attempts, each with a client of its own.\<close>

theorem scoped_client_per_attempt_witness:
  "trace (snd (GoogleDocsRead_invoke flaky_world param0 read_kwargs)) =
     [Build GoogleDocsRead_SCOPES ''{}'',
      Get (Client GoogleDocsRead_SCOPES ''{}'') ''doc-1'',
      Log ''GoogleDocsRead error: backend error'', Sleep 2,
      Build GoogleDocsRead_SCOPES ''{}'',
      Get (Client GoogleDocsRead_SCOPES ''{}'') ''doc-1'']
   \<and> fresh_clients GoogleDocsRead_SCOPES (service_account_json param0) None
        (trace (snd (GoogleDocsRead_invoke flaky_world param0 read_kwargs)))
   \<and> n_attempts (trace (snd (GoogleDocsRead_invoke flaky_world param0 read_kwargs))) = 2
   \<and> fresh_clients GoogleDocsWrite_SCOPES (service_account_json param0) None
        (trace (snd (GoogleDocsWrite_invoke flaky_world param0 write_kwargs)))
   \<and> n_attempts (trace (snd (GoogleDocsWrite_invoke flaky_world param0 write_kwargs))) = 2"
proof -
  have t: "trace (snd (GoogleDocsRead_invoke flaky_world param0 read_kwargs)) =
     [Build GoogleDocsRead_SCOPES ''{}'',
      Get (Client GoogleDocsRead_SCOPES ''{}'') ''doc-1'',
      Log ''GoogleDocsRead error: backend error'', Sleep 2,
      Build GoogleDocsRead_SCOPES ''{}'',
      Get (Client GoogleDocsRead_SCOPES ''{}'') ''doc-1'']"
    by (simp add: eval_defs eval_nat_numeral)
  have a: "attempts (snd (GoogleDocsRead_invoke flaky_world param0 read_kwargs)) = 2"
    "attempts (snd (GoogleDocsWrite_invoke flaky_world param0 write_kwargs)) = 2"
    by (simp_all add: eval_defs eval_nat_numeral)
  show ?thesis
    using scoped_client_per_attempt[of param0 flaky_world read_kwargs write_kwargs] t a
    by (simp add: param0_def)
qed

subsection \<open>Validation failures do not depend on the retry policy\<close>

text \<open>
  C9. For every two invocations of the same tool in the same world with the same
  inputs, when the inputs fail validation: whatever the two parameter objects are
  (\<^verbatim>\<open>max_retries\<close>, \<^verbatim>\<open>delay_after_error\<close>), the returned value and the final
  state, outputs included, are the same.
\<close>

theorem validation_failure_independent:
  "(\<not> read_inputs_ok kr \<longrightarrow> GoogleDocsRead_invoke w p1 kr = GoogleDocsRead_invoke w p2 kr)
   \<and> (\<not> write_inputs_ok w kw \<longrightarrow> GoogleDocsWrite_invoke w p1 kw = GoogleDocsWrite_invoke w p2 kw)"
  by (auto simp: read_inputs_ok_def write_inputs_ok_def GoogleDocsRead_invoke_def
      GoogleDocsWrite_invoke_def strip_get_blank Let_def
      split: prod.splits loads_outcome.splits)

theorem validation_failure_independent_witness:
  "\<not> read_inputs_ok blank_kwargs \<and> \<not> write_inputs_ok ok_world not_json_kwargs
   \<and> max_retries param0 \<noteq> max_retries param1
   \<and> delay_after_error param0 \<noteq> delay_after_error param1
   \<and> GoogleDocsRead_invoke ok_world param0 blank_kwargs =
       GoogleDocsRead_invoke ok_world param1 blank_kwargs
   \<and> GoogleDocsWrite_invoke ok_world param0 not_json_kwargs =
       GoogleDocsWrite_invoke ok_world param1 not_json_kwargs
   \<and> fst (GoogleDocsRead_invoke ok_world param1 blank_kwargs) =
       Text ''Error: document_id is required''"
proof -
  have h1: "\<not> read_inputs_ok blank_kwargs"
    by (simp add: read_inputs_ok_def blank_kwargs_def isspace_def)
  have h2: "\<not> write_inputs_ok ok_world not_json_kwargs"
    by (simp add: write_inputs_ok_def eval_defs)
  have h3: "max_retries param0 \<noteq> max_retries param1"
    "delay_after_error param0 \<noteq> delay_after_error param1"
    by (simp_all add: param0_def param1_def)
  have r: "fst (GoogleDocsRead_invoke ok_world param1 blank_kwargs) =
       Text ''Error: document_id is required''"
    by (simp add: eval_defs)
  show ?thesis
    using h1 h2 h3 r
      validation_failure_independent[of blank_kwargs ok_world param0 param1 not_json_kwargs]
    by simp
qed

subsection \<open>Exceptions with an empty message\<close>

text \<open>
  C10. When every attempt raises an exception whose \<^verbatim>\<open>str\<close> is empty, an
  invocation of either tool that is never canceled and passes validation makes its
  \<open>max_retries + 1\<close> attempts, logs each failure, leaves \<^verbatim>\<open>last_e\<close> empty, skips
  the error report (no \<^verbatim>\<open>_ERROR\<close>, no \<^verbatim>\<open>success\<close>) and ends in the assertion
  failure: that branch is reachable.
\<close>

theorem empty_error_reaches_assertion:
  assumes "\<forall>i. \<not> canceled w i"
    and "read_inputs_ok kr" and "write_inputs_ok w kw"
    and "\<forall>i. err_of (remote w i) = Some []"
  shows "\<exists>sr sw.
      GoogleDocsRead_invoke w p kr = (AssertionFailure Map.empty, sr)
    \<and> GoogleDocsWrite_invoke w p kw = (AssertionFailure Map.empty, sw)
    \<and> outputs sr = Map.empty \<and> outputs sw = Map.empty
    \<and> n_attempts (trace sr) = nat (max_retries p + 1)
    \<and> n_attempts (trace sw) = nat (max_retries p + 1)
    \<and> length (logged (trace sr)) = nat (max_retries p + 1)
    \<and> length (logged (trace sw)) = nat (max_retries p + 1)"
proof -
  let ?N = "nat (max_retries p + 1)"
  have f: "\<forall>i. err_of (remote w i) \<noteq> None" using assms(4) by simp
  have le: "last_error w 0 ?N '''' = []"
    using assms(4) by (simp add: last_error_def err_msg_def)
  define sr where "sr = read_after_failures w p (document_id_of kr) ?N
            (init_state\<lparr>polls := 1\<rparr>)"
  define sw where "sw = write_after_failures w p (document_id_of kw) (operations_of w kw) ?N
            (init_state\<lparr>polls := 1\<rparr>)"
  have "GoogleDocsRead_invoke w p kr = (AssertionFailure Map.empty, sr)"
    using read_invoke_all_fail[OF assms(1,2) f, of p] le by (simp add: sr_def)
  moreover have "GoogleDocsWrite_invoke w p kw = (AssertionFailure Map.empty, sw)"
    using write_invoke_all_fail[OF assms(1,3) f, of p] le by (simp add: sw_def)
  moreover have "outputs sr = Map.empty" "outputs sw = Map.empty"
    by (simp_all add: sr_def sw_def read_after_failures_sel write_after_failures_sel
        init_state_def)
  moreover have "n_attempts (trace sr) = ?N" "length (logged (trace sr)) = ?N"
    by (simp_all add: sr_def read_after_failures_sel init_state_def read_failed_trace_obs
        read_failed_trace_logged)
  moreover have "n_attempts (trace sw) = ?N" "length (logged (trace sw)) = ?N"
    by (simp_all add: sw_def write_after_failures_sel init_state_def write_failed_trace_obs
        write_failed_trace_logged)
  ultimately show ?thesis by blast
qed

theorem empty_error_reaches_assertion_witness:
  "(\<forall>i. \<not> canceled silent_world i)
   \<and> read_inputs_ok read_kwargs \<and> write_inputs_ok silent_world write_kwargs
   \<and> (\<forall>i. err_of (remote silent_world i) = Some [])
   \<and> (\<exists>sr sw.
      GoogleDocsRead_invoke silent_world param0 read_kwargs = (AssertionFailure Map.empty, sr)
    \<and> GoogleDocsWrite_invoke silent_world param0 write_kwargs = (AssertionFailure Map.empty, sw)
    \<and> outputs sr = Map.empty \<and> outputs sw = Map.empty
    \<and> n_attempts (trace sr) = 3 \<and> n_attempts (trace sw) = 3
    \<and> length (logged (trace sr)) = 3 \<and> length (logged (trace sw)) = 3)"
proof -
  have h1: "\<forall>i. \<not> canceled silent_world i"
    by (simp add: silent_world_def sample_world_def)
  have h2: "read_inputs_ok read_kwargs" "write_inputs_ok silent_world write_kwargs"
    unfolding silent_world_def by (rule sample_inputs_ok)+
  have h4: "\<forall>i. err_of (remote silent_world i) = Some []"
    by (simp add: silent_world_def sample_world_def)
  show ?thesis
    using h1 h2 h4 empty_error_reaches_assertion[OF h1 h2 h4, of param0]
    by (simp add: param0_def)
qed

end
